theory Spec2Isabelle
  imports Complex_Main
begin

section \<open>The EVAE model of \<open>DrugEmbedding/evae.py\<close>\<close>

text \<open>
  Tensors are nested lists: a token batch (a LongTensor of shape (batch, length)) is an
  \<open>int list list\<close>, a float tensor of shape (batch, n) a \<open>real list list\<close>. Floating-point
  arithmetic is idealised to the reals; where the source computes \<open>log 0\<close> or the log of a
  negative number the value is written out (\<open>NegInf\<close>, \<open>NaN\<close>). Every exception the
  source can raise on the paths modelled is a value of \<open>error\<close>.
\<close>

datatype error = UnboundLocalError | ZeroDivisionError | IndexError | RuntimeError | ValueError

text \<open>
  A scalar the source computes: a real number, or one of the three special values a
  floating-point computation gives where the real-valued one is undefined.
\<close>

datatype tfloat = NaN | NegInf | PosInf | Finite real

fun fneg :: "tfloat \<Rightarrow> tfloat" where
  "fneg NaN = NaN"
| "fneg NegInf = PosInf"
| "fneg PosInf = NegInf"
| "fneg (Finite a) = Finite (- a)"

fun fadd :: "tfloat \<Rightarrow> tfloat \<Rightarrow> tfloat" where
  "fadd (Finite a) (Finite b) = Finite (a + b)"
| "fadd NaN y = NaN"
| "fadd x NaN = NaN"
| "fadd PosInf NegInf = NaN"
| "fadd NegInf PosInf = NaN"
| "fadd PosInf y = PosInf"
| "fadd x PosInf = PosInf"
| "fadd NegInf y = NegInf"
| "fadd x NegInf = NegInf"

definition fsub :: "tfloat \<Rightarrow> tfloat \<Rightarrow> tfloat" where
  "fsub x y = fadd x (fneg y)"

definition fsum :: "tfloat list \<Rightarrow> tfloat" where
  "fsum xs = foldr fadd xs (Finite 0)"

text \<open>Division of a scalar by a count (\<open>x / batch_size\<close>, the divisor of a mean).\<close>

fun fdiv :: "tfloat \<Rightarrow> nat \<Rightarrow> tfloat" where
  "fdiv (Finite a) k =
     (if k = 0 then (if a = 0 then NaN else if 0 < a then PosInf else NegInf)
      else Finite (a / real k))"
| "fdiv x k = x"

fun fexp :: "tfloat \<Rightarrow> tfloat" where
  "fexp (Finite a) = Finite (exp a)"
| "fexp NegInf = Finite 0"
| "fexp x = x"

definition torch_log :: "real \<Rightarrow> tfloat" where
  "torch_log x = (if x < 0 then NaN else if x = 0 then NegInf else Finite (ln x))"

text \<open>\<open>tensor.mean()\<close>: the mean of no elements is NaN.\<close>

definition tensor_mean :: "tfloat list \<Rightarrow> tfloat" where
  "tensor_mean xs = (if xs = [] then NaN else fdiv (fsum xs) (length xs))"

text \<open>\<open>torch.logsumexp\<close>: \<open>-inf\<close> entries contribute nothing, and the result of no
  finite entry is \<open>-inf\<close>.\<close>

definition finite_values :: "tfloat list \<Rightarrow> real list" where
  "finite_values xs = concat (map (\<lambda>x. case x of Finite a \<Rightarrow> [a] | _ \<Rightarrow> []) xs)"

definition logsumexp :: "tfloat list \<Rightarrow> tfloat" where
  "logsumexp xs =
     (if NaN \<in> set xs then NaN
      else if PosInf \<in> set xs then PosInf
      else if finite_values xs = [] then NegInf
      else Finite (ln (sum_list (map exp (finite_values xs)))))"

text \<open>\<open>shape[1]\<close> of a two-dimensional tensor given as its list of rows.\<close>

definition row_width :: "'a list list \<Rightarrow> nat" where
  "row_width xs = (case xs of [] \<Rightarrow> 0 | r # _ \<Rightarrow> length r)"

text \<open>A tensor of shape \<open>(B, n)\<close>.\<close>

definition has_shape :: "nat \<Rightarrow> nat \<Rightarrow> 'a list list \<Rightarrow> bool" where
  "has_shape B n xs = (length xs = B \<and> list_all (\<lambda>r. length r = n) xs)"

text \<open>
  The fields of \<open>self\<close>. The recurrent networks and the linear layers are library modules
  holding learned weights; they are functions here. A recurrent network processes the
  rows of a packed batch independently of each other, so \<open>encoder_rnn\<close> maps the packed
  one-hot row of one example to its final hidden states (one per layer and direction), and
  \<open>decoder_rnn\<close> maps the packed row and the initial hidden state of one example to its
  outputs, one per time step.
\<close>

record evae =
  hidden_size :: nat
  latent_size :: nat
  bidirectional :: bool
  num_layers :: nat
  word_dropout_rate :: real
  vocab_size :: nat
  max_sequence_length :: nat
  sos_idx :: int
  eos_idx :: int
  pad_idx :: int
  unk_idx :: int
  encoder_rnn :: "real list list \<Rightarrow> real list list"
  decoder_rnn :: "real list list \<Rightarrow> real list \<Rightarrow> real list list"
  hidden2mean :: "real list \<Rightarrow> real list"
  hidden2logv :: "real list \<Rightarrow> real list"
  latent2hidden :: "real list \<Rightarrow> real list"
  outputs2vocab :: "real list \<Rightarrow> real list"
  prior :: string
  alpha :: real
  beta :: real
  gamma :: real

definition hidden_factor :: "'a evae_scheme \<Rightarrow> nat" where
  "hidden_factor m = (if bidirectional m then 2 else 1) * num_layers m"

subsection \<open>Running a fallible step over a list\<close>

fun traverse :: "('a \<Rightarrow> error + 'b) \<Rightarrow> 'a list \<Rightarrow> error + 'b list" where
  "traverse f [] = Inr []"
| "traverse f (x # xs) =
     (case f x of
        Inl e \<Rightarrow> Inl e
      | Inr y \<Rightarrow> (case traverse f xs of Inl e \<Rightarrow> Inl e | Inr ys \<Rightarrow> Inr (y # ys)))"

subsection \<open>One-hot embedding\<close>

text \<open>
  \<open>embeddings[b, t, char.item()] = 1\<close> on a numpy array of \<open>vocab_size\<close> zeros: an index
  from \<open>-vocab_size\<close> to \<open>-1\<close> counts from the end, an index outside
  \<open>-vocab_size .. vocab_size - 1\<close> raises IndexError. The test is \<open>char.item() != 0\<close>.
\<close>

definition one_hot_vector :: "nat \<Rightarrow> int \<Rightarrow> error + real list" where
  "one_hot_vector V c =
     (if c \<noteq> 0 then
        (if - int V \<le> c \<and> c < int V
         then Inr ((replicate V 0)[nat (if c < 0 then int V + c else c) := 1])
         else Inl IndexError)
      else Inr (replicate V 0))"

definition one_hot_embedding :: "'a evae_scheme \<Rightarrow> int list list \<Rightarrow> error + real list list list" where
  "one_hot_embedding m input_sequence =
     traverse (traverse (one_hot_vector (vocab_size m))) input_sequence"

subsection \<open>Sorting by length and restoring the order\<close>

text \<open>
  \<open>torch.sort\<close> returns the sorted values and the indices that sort them;
  \<open>x[idx]\<close> selects rows. \<open>torch.sort\<close> does not say in which order it leaves equal
  values. For the descending sort of the lengths that order is an argument, \<open>tie\<close>: the
  indices are ordered by \<open>tie\<close> and then, stably, by decreasing length. Every \<open>tie\<close>
  gives a permutation that sorts the lengths, and every permutation that sorts the
  lengths is given by some \<open>tie\<close> (\<open>argsort_descending_complete\<close> below). The ascending
  sort is applied to sort permutations, whose entries are distinct.
\<close>

definition index_select :: "'a list \<Rightarrow> nat list \<Rightarrow> error + 'a list" where
  "index_select xs idx =
     (if list_all (\<lambda>i. i < length xs) idx then Inr (map (\<lambda>i. xs ! i) idx) else Inl IndexError)"

definition argsort :: "int list \<Rightarrow> nat list" where
  "argsort xs = sort_key (\<lambda>i. xs ! i) [0..<length xs]"

definition argsort_descending :: "(nat \<Rightarrow> nat) \<Rightarrow> int list \<Rightarrow> nat list" where
  "argsort_descending tie xs = sort_key (\<lambda>i. - (xs ! i)) (sort_key tie [0..<length xs])"

definition torch_sort :: "int list \<Rightarrow> int list \<times> nat list" where
  "torch_sort xs = (map (\<lambda>i. xs ! i) (argsort xs), argsort xs)"

definition torch_sort_descending :: "(nat \<Rightarrow> nat) \<Rightarrow> int list \<Rightarrow> int list \<times> nat list" where
  "torch_sort_descending tie xs =
     (map (\<lambda>i. xs ! i) (argsort_descending tie xs), argsort_descending tie xs)"

subsection \<open>Packing and unpacking\<close>

text \<open>
  \<open>pack_padded_sequence\<close> keeps the first \<open>length\<close> steps of each row. It raises unless
  there is one positive length per row, none longer than the row, in decreasing order.
  \<open>pad_packed_sequence\<close> pads every row of outputs with zero vectors to the longest length.
\<close>

definition pack_padded_sequence :: "'a list list \<Rightarrow> int list \<Rightarrow> error + 'a list list" where
  "pack_padded_sequence rows lengths =
     (if lengths \<noteq> [] \<and> length lengths = length rows
         \<and> sorted (rev lengths)
         \<and> list_all (\<lambda>l. 0 < l) lengths
         \<and> list_all2 (\<lambda>l row. l \<le> int (length row)) lengths rows
      then Inr (map2 (\<lambda>l row. take (nat l) row) lengths rows)
      else Inl RuntimeError)"

definition pad_packed_sequence :: "nat \<Rightarrow> real list list list \<Rightarrow> real list list list" where
  "pad_packed_sequence width outputs =
     (let s = fold max (map length outputs) 0
      in map (\<lambda>out. out @ replicate (s - length out) (replicate width 0)) outputs)"

subsection \<open>Encoder and reparameterisation\<close>

definition encoder :: "'a evae_scheme \<Rightarrow> int list list \<Rightarrow> int list \<Rightarrow> error + real list list" where
  "encoder m input_sequence sorted_lengths =
     (case one_hot_embedding m input_sequence of
        Inl e \<Rightarrow> Inl e
      | Inr one_hot_rep \<Rightarrow>
          (case pack_padded_sequence one_hot_rep sorted_lengths of
             Inl e \<Rightarrow> Inl e
           | Inr packed_input \<Rightarrow>
               Inr (map (\<lambda>row. if 1 < hidden_factor m then concat (encoder_rnn m row)
                                else hd (encoder_rnn m row)) packed_input)))"

text \<open>
  \<open>torch.randn\<close> draws the noise \<open>eps\<close>; it is an argument here, indexed by row and
  column as the tensor is.
\<close>

definition reparameterize ::
  "'a evae_scheme \<Rightarrow> real list list \<Rightarrow> (nat \<Rightarrow> nat \<Rightarrow> real)
     \<Rightarrow> real list list \<times> real list list \<times> real list list" where
  "reparameterize m hidden eps =
     (let mean_z = map (hidden2mean m) hidden;
          logv = map (hidden2logv m) hidden;
          std = map (map (\<lambda>l. exp (0.5 * l))) logv;
          z = map (\<lambda>b. map (\<lambda>i. mean_z ! b ! i + eps b i * (std ! b ! i)) [0..<latent_size m])
                  [0..<length mean_z]
      in (mean_z, logv, z))"

subsection \<open>Decoder\<close>

text \<open>
  Word dropout, lines 103 to 108. \<open>torch.rand\<close> draws \<open>prob\<close>, an argument here. The
  mask \<open>(input - sos_idx) * (input - pad_idx) == 0\<close> is computed on 64-bit integers,
  so the product wraps.
\<close>

definition protected_token :: "'a evae_scheme \<Rightarrow> int \<Rightarrow> bool" where
  "protected_token m tok = (((tok - sos_idx m) * (tok - pad_idx m)) mod 2 ^ 64 = 0)"

definition word_dropout :: "'a evae_scheme \<Rightarrow> (nat \<Rightarrow> nat \<Rightarrow> real) \<Rightarrow> int list list \<Rightarrow> int list list" where
  "word_dropout m rand input_sequence =
     map (\<lambda>b. map (\<lambda>t.
            let tok = input_sequence ! b ! t;
                prob = (if protected_token m tok then 1 else rand b t)
            in if prob < word_dropout_rate m then unk_idx m else tok)
          [0..<length (input_sequence ! b)])
       [0..<length input_sequence]"

definition log_softmax :: "real list \<Rightarrow> real list" where
  "log_softmax xs = map (\<lambda>x. x - ln (sum_list (map exp xs))) xs"

text \<open>
  The decoder. \<open>decoder_one_hot_rep\<close> is assigned only inside
  \<open>if self.word_dropout_rate > 0\<close>; line 110 reads it in either case.
\<close>

definition decoder ::
  "'a evae_scheme \<Rightarrow> int list list \<Rightarrow> int list \<Rightarrow> nat list \<Rightarrow> real list list
     \<Rightarrow> (nat \<Rightarrow> nat \<Rightarrow> real) \<Rightarrow> error + real list list list" where
  "decoder m input_sequence sorted_lengths sorted_idx z rand =
     (let hidden = map (latent2hidden m) z
      in case (if 0 < word_dropout_rate m
               then one_hot_embedding m (word_dropout m rand input_sequence)
               else Inl UnboundLocalError) of
           Inl e \<Rightarrow> Inl e
         | Inr decoder_one_hot_rep \<Rightarrow>
             (case pack_padded_sequence decoder_one_hot_rep sorted_lengths of
                Inl e \<Rightarrow> Inl e
              | Inr packed_input \<Rightarrow>
                  (let outputs = map2 (decoder_rnn m) packed_input hidden;
                       padded_outputs = pad_packed_sequence (hidden_size m) outputs;
                       reversed_idx = snd (torch_sort (map int sorted_idx))
                   in case index_select padded_outputs reversed_idx of
                        Inl e \<Rightarrow> Inl e
                      | Inr padded_outputs \<Rightarrow>
                          Inr (map (map (\<lambda>out. log_softmax (outputs2vocab m out)))
                                 padded_outputs))))"

subsection \<open>The batch\<close>

text \<open>The entries of the \<open>batch\<close> dictionary that the model reads.\<close>

record batch =
  drug_name :: "string list"
  drug_inputs :: "int list list"
  drug_targets :: "int list list"
  drug_len :: "int list"
  loc_ranking_indicator :: "int list"
  loc_ranking_len :: "int list list"
  loc_ranking_inputs :: "int list list list"

subsection \<open>The diagnostic entry point\<close>

definition get_intermediates ::
  "'a evae_scheme \<Rightarrow> 'b batch_scheme \<Rightarrow> (nat \<Rightarrow> nat \<Rightarrow> real) \<Rightarrow> (nat \<Rightarrow> nat)
     \<Rightarrow> error + (real list list \<times> real list list \<times> real list list)" where
  "get_intermediates m batch eps tie =
     (let input_sequence = drug_inputs batch;
          input_sequence_length = drug_len batch;
          (sorted_lengths, sorted_idx) = torch_sort_descending tie input_sequence_length
      in case index_select input_sequence sorted_idx of
           Inl e \<Rightarrow> Inl e
         | Inr input_sequence \<Rightarrow>
             (let reversed_idx = snd (torch_sort (map int sorted_idx))
              in case encoder m input_sequence sorted_lengths of
                   Inl e \<Rightarrow> Inl e
                 | Inr hidden \<Rightarrow>
                     (let (mean, logv, z) = reparameterize m hidden eps
                      in case index_select mean reversed_idx of
                           Inl e \<Rightarrow> Inl e
                         | Inr mean' \<Rightarrow>
                             (case index_select logv reversed_idx of
                                Inl e \<Rightarrow> Inl e
                              | Inr logv' \<Rightarrow>
                                  (case index_select z reversed_idx of
                                     Inl e \<Rightarrow> Inl e
                                   | Inr z' \<Rightarrow> Inr (mean', logv', z'))))))"

subsection \<open>Divergence estimators\<close>

text \<open>
  \<open>MultivariateNormal(loc, covariance_matrix).log_prob(value)\<close> of the library, for the
  diagonal covariance matrices the source builds: with the Cholesky factor
  \<open>diag (sqrt v)\<close> it is \<open>- (n log (2 pi) + M) / 2 - sum (log (sqrt v))\<close>, where \<open>M\<close> is the
  squared Mahalanobis distance.
\<close>

definition eye :: "nat \<Rightarrow> real list list" where
  "eye n = map (\<lambda>i. map (\<lambda>j. if i = j then 1 else 0) [0..<n]) [0..<n]"

definition covariance :: "real list \<Rightarrow> real list list \<Rightarrow> real list list" where
  "covariance logv_b diag_b = map2 (\<lambda>l row. map (\<lambda>d. exp l * d) row) logv_b diag_b"

definition mvn_log_prob :: "real list \<Rightarrow> real list list \<Rightarrow> real list \<Rightarrow> real" where
  "mvn_log_prob loc cov val =
     (let n = length loc;
          var = map (\<lambda>i. cov ! i ! i) [0..<n];
          diff = map2 (\<lambda>v l. v - l) val loc;
          M = sum_list (map2 (\<lambda>d v. d\<^sup>2 / v) diff var);
          half_log_det = sum_list (map (\<lambda>v. ln (sqrt v)) var)
      in - (1/2) * (real n * ln (2 * pi) + M) - half_log_det)"

definition kl_loss :: "'a evae_scheme \<Rightarrow> real list list \<Rightarrow> real list list \<Rightarrow> real list list \<Rightarrow> error + real" where
  "kl_loss m mean logv z =
     (let batch_size = length mean;
          n = row_width mean;
          diag = replicate batch_size (eye n);
          cov = map2 covariance logv diag;
          logp_posterior_z = map (\<lambda>b. mvn_log_prob (mean ! b) (cov ! b) (z ! b)) [0..<batch_size]
      in if prior m = ''Standard''
         then (let logp_prior_z =
                     map (\<lambda>b. mvn_log_prob (replicate n 0) (diag ! b) (z ! b)) [0..<batch_size]
               in Inr (sum_list (map2 (\<lambda>q p. q - p) logp_posterior_z logp_prior_z)))
         else Inl UnboundLocalError)"

text \<open>
  \<open>MultivariateNormal(loc, covariance_matrix).log_prob(value)\<close> for a batch of
  distributions. The constructor validates its arguments; for a batch of no distributions
  (a \<open>loc\<close> of shape \<open>(0, n)\<close>) the check of \<open>loc\<close> reshapes a tensor of no elements to
  shape \<open>(0, -1)\<close> and raises RuntimeError.
\<close>

definition mvn_batch_log_prob ::
  "real list list \<Rightarrow> real list list list \<Rightarrow> real list list \<Rightarrow> error + real list" where
  "mvn_batch_log_prob loc cov val =
     (if loc = [] then Inl RuntimeError
      else Inr (map (\<lambda>r. mvn_log_prob (loc ! r) (cov ! r) (val ! r)) [0..<length loc]))"

text \<open>
  One round of the loop of \<open>marginal_posterior_divergence\<close>. The distribution over the
  other examples is built at line 238, before the weight of line 242, which is a quotient
  of Python numbers, computed before it becomes a tensor.
\<close>

definition marginal_posterior_term ::
  "real list list \<Rightarrow> real list list \<Rightarrow> real list list \<Rightarrow> int \<Rightarrow> nat \<Rightarrow> error + (tfloat \<times> real)" where
  "marginal_posterior_term z mean logv num_samples b =
     (let batch_size = length mean;
          n = row_width mean;
          diag = eye n;
          zb = z ! b;
          mu_b = mean ! b;
          logv_b = logv ! b;
          diag_b = eye n;
          cov_b = covariance logv_b diag_b;
          zr = replicate (batch_size - 1) zb;
          mu_r = take b mean @ drop (b + 1) mean;
          logv_r = take b logv @ drop (b + 1) logv;
          diag_r = replicate (batch_size - 1) (eye n);
          cov_r = map2 covariance logv_r diag_r;
          logq_zb_xb = mvn_log_prob mu_b cov_b zb
      in case mvn_batch_log_prob mu_r cov_r zr of
           Inl e \<Rightarrow> Inl e
         | Inr logq_zb_xr \<Rightarrow>
             (let yb1 = fsub (Finite logq_zb_xb) (torch_log (real_of_int num_samples))
              in if (int batch_size - 1) * num_samples = 0 then Inl ZeroDivisionError
                 else (let w = torch_log (real_of_int (num_samples - 1)
                                            / real_of_int ((int batch_size - 1) * num_samples));
                           yb2 = map (\<lambda>l. fadd (Finite l) w) logq_zb_xr;
                           yb = yb1 # yb2;
                           logq_zb = logsumexp yb;
                           logp_zb = mvn_log_prob (replicate n 0) diag zb
                       in Inr (logq_zb, logp_zb))))"

definition marginal_posterior_divergence ::
  "'a evae_scheme \<Rightarrow> real list list \<Rightarrow> real list list \<Rightarrow> real list list \<Rightarrow> int \<Rightarrow> error + tfloat" where
  "marginal_posterior_divergence m z mean logv num_samples =
     (let batch_size = length mean
      in case traverse (marginal_posterior_term z mean logv num_samples) [0..<batch_size] of
           Inl e \<Rightarrow> Inl e
         | Inr terms \<Rightarrow>
             if terms = [] then Inl RuntimeError
             else Inr (fsum (map (\<lambda>(logq_zb, logp_zb). fsub logq_zb (Finite logp_zb)) terms)))"

subsection \<open>Maximum mean discrepancy\<close>

definition compute_kernel :: "real list list \<Rightarrow> real list list \<Rightarrow> tfloat list list" where
  "compute_kernel x y =
     (let x_size = length x;
          y_size = length y;
          dim = row_width x;
          tiled_x = map (\<lambda>xi. replicate y_size xi) x;
          tiled_y = replicate x_size y;
          kernel_input =
            map2 (\<lambda>tx ty. map2 (\<lambda>a b.
                    fdiv (tensor_mean (map2 (\<lambda>u v. Finite ((u - v)\<^sup>2)) a b)) dim) tx ty)
              tiled_x tiled_y
      in map (map (\<lambda>k. fexp (fneg k))) kernel_input)"

text \<open>The factor 2 of \<open>2 * xy_kernel.mean()\<close> is written as a sum.\<close>

definition compute_mmd :: "real list list \<Rightarrow> real list list \<Rightarrow> tfloat" where
  "compute_mmd x y =
     (let x_kernel = compute_kernel x x;
          y_kernel = compute_kernel y y;
          xy_kernel = compute_kernel x y;
          xy_mean = tensor_mean (concat xy_kernel)
      in fsub (fadd (tensor_mean (concat x_kernel)) (tensor_mean (concat y_kernel)))
              (fadd xy_mean xy_mean))"

text \<open>\<open>torch.randn\<close> draws \<open>true_samples\<close>; the noise is an argument here.\<close>

definition mmd_loss :: "'a evae_scheme \<Rightarrow> real list list \<Rightarrow> (nat \<Rightarrow> nat \<Rightarrow> real) \<Rightarrow> tfloat" where
  "mmd_loss m zq noise =
     (let true_samples = map (\<lambda>b. map (\<lambda>i. noise b i) [0..<latent_size m]) [0..<length zq]
      in compute_mmd true_samples zq)"

subsection \<open>Ranking loss\<close>

text \<open>
  \<open>tensor.view(-1, w)\<close> of a tensor given by its elements in row-major order: rows of
  width \<open>w\<close>, an error when the elements do not fill whole rows.
\<close>

definition view_rows :: "nat \<Rightarrow> 'a list \<Rightarrow> error + 'a list list" where
  "view_rows w xs =
     (if 0 < w \<and> length xs mod w = 0
      then Inr (map (\<lambda>i. take w (drop (i * w) xs)) [0..<length xs div w])
      else Inl RuntimeError)"

text \<open>\<open>F.pairwise_distance\<close> with its defaults \<open>p = 2\<close> and \<open>eps = 1e-6\<close>: the norm of
  \<open>x1 - x2 + eps\<close>.\<close>

definition pairwise_distance :: "real list \<Rightarrow> real list \<Rightarrow> real" where
  "pairwise_distance x1 x2 = sqrt (sum_list (map2 (\<lambda>a b. (a - b + 1 / 1000000)\<^sup>2) x1 x2))"

text \<open>Lines 316 and 317: the loss from the distances, one row per selected anchor.\<close>

definition local_ranking_objective :: "real list list \<Rightarrow> nat \<Rightarrow> real" where
  "local_ranking_objective euclidean_dist n_selected =
     sum_list (map (\<lambda>d. d ! 0 + ln (sum_list (map (\<lambda>x. exp (- x)) d))) euclidean_dist)
       / real n_selected"

text \<open>
  \<open>squeeze()\<close> turns the flattened lengths of a single candidate into a scalar; selecting
  with its sort index then gives a one-dimensional input, whose \<open>shape[1]\<close> the one-hot
  embedding cannot read.
\<close>

definition ranking_loss ::
  "'a evae_scheme \<Rightarrow> 'b batch_scheme \<Rightarrow> (nat \<Rightarrow> nat \<Rightarrow> real) \<Rightarrow> (nat \<Rightarrow> nat \<Rightarrow> real)
     \<Rightarrow> (nat \<Rightarrow> nat) \<Rightarrow> (nat \<Rightarrow> nat) \<Rightarrow> error + real" where
  "ranking_loss m batch eps1 eps2 tie1 tie2 =
     (let batch_size = length (drug_name batch);
          instance_idx = loc_ranking_indicator batch
      in if length instance_idx < batch_size then Inl IndexError
         else (let select_idx = filter (\<lambda>i. instance_idx ! i = 1) [0..<batch_size]
          in if length select_idx = 0 then Inr 0
         else (case index_select (drug_inputs batch) select_idx of Inl e \<Rightarrow> Inl e
          | Inr input_sequence \<Rightarrow>
         (case index_select (drug_len batch) select_idx of Inl e \<Rightarrow> Inl e
          | Inr input_sequence_length \<Rightarrow>
         (let (sorted_lengths, sorted_idx) = torch_sort_descending tie1 input_sequence_length
          in case index_select input_sequence sorted_idx of Inl e \<Rightarrow> Inl e
          | Inr input_sequence \<Rightarrow>
         (case encoder m input_sequence sorted_lengths of Inl e \<Rightarrow> Inl e
          | Inr hidden_drug \<Rightarrow>
         (let (mean_drug, logv_drug, z_drug) = reparameterize m hidden_drug eps1
          in case index_select (loc_ranking_len batch) select_idx of Inl e \<Rightarrow> Inl e
          | Inr local_ranking_sequence_length \<Rightarrow>
         (case index_select (loc_ranking_inputs batch) select_idx of Inl e \<Rightarrow> Inl e
          | Inr local_ranking_inputs \<Rightarrow>
         (let nneg = int (row_width local_ranking_sequence_length) - 1;
              local_ranking_sequence_length_flatten = concat local_ranking_sequence_length
          in case view_rows (max_sequence_length m - 1) (concat (concat local_ranking_inputs)) of
            Inl e \<Rightarrow> Inl e
          | Inr local_ranking_inputs_flatten \<Rightarrow>
         (if length local_ranking_sequence_length_flatten = 1 then Inl IndexError
          else (let (local_sorted_lengths, local_sorted_idx) =
                      torch_sort_descending tie2 local_ranking_sequence_length_flatten
          in case index_select local_ranking_inputs_flatten local_sorted_idx of Inl e \<Rightarrow> Inl e
          | Inr local_ranking_inputs_flatten_sorted \<Rightarrow>
         (case encoder m local_ranking_inputs_flatten_sorted local_sorted_lengths of
            Inl e \<Rightarrow> Inl e
          | Inr hidden_local_ranking_drug \<Rightarrow>
         (let (mean_local_ranking, logv_local, z_local) =
                reparameterize m hidden_local_ranking_drug eps2;
              local_reversed_idx = snd (torch_sort (map int local_sorted_idx))
          in case index_select mean_local_ranking local_reversed_idx of Inl e \<Rightarrow> Inl e
          | Inr mean_local_ranking \<Rightarrow>
         (let reversed_idx = snd (torch_sort (map int sorted_idx))
          in case index_select mean_drug reversed_idx of Inl e \<Rightarrow> Inl e
          | Inr mean_drug \<Rightarrow>
         (case view_rows (latent_size m)
                 (concat (map (\<lambda>row. concat (replicate (nat (nneg + 1)) row)) mean_drug)) of
            Inl e \<Rightarrow> Inl e
          | Inr mean_drug_exp \<Rightarrow>
         (let euclidean_dist = map2 pairwise_distance mean_local_ranking mean_drug_exp
          in if length euclidean_dist = length select_idx * nat (1 + nneg)
             then (case view_rows (nat (1 + nneg)) euclidean_dist of Inl e \<Rightarrow> Inl e
                   | Inr euclidean_dist \<Rightarrow>
                       Inr (local_ranking_objective euclidean_dist (length select_idx)))
             else Inl RuntimeError))))))))))))))))"

subsection \<open>The VAE loss\<close>

text \<open>
  \<open>NLLLoss(ignore_index, reduction='sum')\<close>: the negated log-probabilities of the
  targets, those equal to \<open>ignore_index\<close> left out.
\<close>

definition nll_loss_sum :: "int \<Rightarrow> real list list \<Rightarrow> int list \<Rightarrow> error + real" where
  "nll_loss_sum ignore_index logp target =
     (if length logp \<noteq> length target then Inl ValueError
      else case traverse (\<lambda>(row, t).
                  if t = ignore_index then Inr 0
                  else if 0 \<le> t \<and> t < int (length row) then Inr (- (row ! nat t))
                  else Inl IndexError) (zip logp target) of
             Inl e \<Rightarrow> Inl e
           | Inr terms \<Rightarrow> Inr (sum_list terms))"

definition vae_loss ::
  "'a evae_scheme \<Rightarrow> 'b batch_scheme \<Rightarrow> int \<Rightarrow> (nat \<Rightarrow> nat \<Rightarrow> real) \<Rightarrow> (nat \<Rightarrow> nat \<Rightarrow> real)
     \<Rightarrow> (nat \<Rightarrow> nat \<Rightarrow> real) \<Rightarrow> (nat \<Rightarrow> nat)
     \<Rightarrow> error + (tfloat \<times> tfloat \<times> tfloat \<times> tfloat)" where
  "vae_loss m batch num_samples eps rand noise tie =
     (let batch_size = length (drug_name batch);
          input_sequence = drug_inputs batch;
          target_sequence = drug_targets batch;
          input_sequence_length = drug_len batch;
          (sorted_lengths, sorted_idx) = torch_sort_descending tie input_sequence_length
      in case index_select input_sequence sorted_idx of Inl e \<Rightarrow> Inl e
          | Inr input_sequence \<Rightarrow>
         (case encoder m input_sequence sorted_lengths of Inl e \<Rightarrow> Inl e
          | Inr hidden \<Rightarrow>
         (let (mean, logv, z) = reparameterize m hidden eps
          in case decoder m input_sequence sorted_lengths sorted_idx z rand of Inl e \<Rightarrow> Inl e
          | Inr logp_drug \<Rightarrow>
         (if input_sequence_length = [] then Inl RuntimeError
          else (let longest = fold max input_sequence_length (hd input_sequence_length);
                    target = concat (map (take (nat longest)) target_sequence);
                    logp = concat logp_drug
          in case nll_loss_sum (pad_idx m) logp target of Inl e \<Rightarrow> Inl e
          | Inr recon \<Rightarrow>
         (let recon_loss = fdiv (Finite recon) batch_size
          in case (if 0 < beta m
                   then (case kl_loss m mean logv z of Inl e \<Rightarrow> Inl e
                         | Inr kl \<Rightarrow> Inr (fdiv (Finite kl) batch_size))
                   else Inr (Finite 0)) of Inl e \<Rightarrow> Inl e
          | Inr kl_term \<Rightarrow>
         (case (if 0 < alpha m
                then (case marginal_posterior_divergence m z mean logv num_samples of
                        Inl e \<Rightarrow> Inl e
                      | Inr mkl \<Rightarrow> Inr (fdiv mkl batch_size))
                else Inr (Finite 0)) of Inl e \<Rightarrow> Inl e
          | Inr mkl_term \<Rightarrow>
         (let mmd_term = (if 0 < gamma m then mmd_loss m z noise else Finite 0)
          in Inr (recon_loss, kl_term, mkl_term, mmd_term)))))))))"

subsection \<open>The formulas of the specification\<close>

text \<open>
  The log-density at \<open>val\<close> of the normal distribution with mean \<open>mu\<close> and diagonal
  covariance \<open>exp lv\<close>, in closed form: \<open>log q(z | x)\<close> for the posterior of one
  example, the standard-normal log-density for \<open>mu = lv = 0\<close>.
\<close>

definition gaussian_log_density :: "real list \<Rightarrow> real list \<Rightarrow> real list \<Rightarrow> real" where
  "gaussian_log_density val mu lv =
     (\<Sum>i<length mu. - (1/2) * (ln (2 * pi) + lv ! i + (val ! i - mu ! i)\<^sup>2 / exp (lv ! i)))"



text \<open>
  The estimate of the specification: \<open>log q(z_b)\<close> is the log-sum-exp of the in-example
  log-density offset by \<open>- log num_samples\<close> and of the cross-example log-densities for
  \<open>r \<noteq> b\<close>, each offset by \<open>log ((num_samples - 1) / ((B - 1) * num_samples))\<close>; the
  divergence is the sum over \<open>b\<close> of \<open>log q(z_b) - log p(z_b)\<close>.
\<close>

definition aggregate_log_density ::
  "real list list \<Rightarrow> real list list \<Rightarrow> real list list \<Rightarrow> int \<Rightarrow> nat \<Rightarrow> tfloat" where
  "aggregate_log_density z mean logv num_samples b =
     logsumexp
       (fsub (Finite (gaussian_log_density (z ! b) (mean ! b) (logv ! b)))
             (torch_log (real_of_int num_samples))
        # map (\<lambda>r. fadd (Finite (gaussian_log_density (z ! b) (mean ! r) (logv ! r)))
                        (torch_log (real_of_int (num_samples - 1)
                                      / (real (length mean - 1) * real_of_int num_samples))))
              (filter (\<lambda>r. r \<noteq> b) [0..<length mean]))"

definition minibatch_weighted_divergence ::
  "real list list \<Rightarrow> real list list \<Rightarrow> real list list \<Rightarrow> int \<Rightarrow> tfloat" where
  "minibatch_weighted_divergence z mean logv num_samples =
     fsum (map (\<lambda>b. fsub (aggregate_log_density z mean logv num_samples b)
                          (Finite (gaussian_log_density (z ! b)
                                     (replicate (length (z ! b)) 0) (replicate (length (z ! b)) 0))))
               [0..<length mean])"

text \<open>
  The estimator of the specification: the kernel
  \<open>exp (- mean_over_dims ((a - b)^2) / dim)\<close>, the mean of a kernel matrix, and
  \<open>mean K_tt + mean K_zz - 2 * mean K_tz\<close>.
\<close>

definition gaussian_kernel :: "real list \<Rightarrow> real list \<Rightarrow> real" where
  "gaussian_kernel a b =
     exp (- ((\<Sum>k<length a. (a ! k - b ! k)\<^sup>2) / real (length a)) / real (length a))"

definition kernel_mean :: "real list list \<Rightarrow> real list list \<Rightarrow> real" where
  "kernel_mean x y =
     (\<Sum>i<length x. \<Sum>j<length y. gaussian_kernel (x ! i) (y ! j)) / real (length x * length y)"

definition mmd_estimate :: "real list list \<Rightarrow> real list list \<Rightarrow> real" where
  "mmd_estimate t z = kernel_mean t t + kernel_mean z z - 2 * kernel_mean t z"

text \<open>The anchors that \<open>ranking_loss\<close> selects: the examples whose indicator is 1.\<close>

definition selected_anchors :: "'b batch_scheme \<Rightarrow> nat list" where
  "selected_anchors batch =
     filter (\<lambda>i. loc_ranking_indicator batch ! i = 1) [0..<length (drug_name batch)]"

subsection \<open>A small instance\<close>

text \<open>
  A model with a vocabulary of four symbols and one latent dimension, on which the
  definitions are evaluated at concrete inputs.
\<close>

definition toy_model :: evae where
  "toy_model = \<lparr>hidden_size = 1, latent_size = 1, bidirectional = False, num_layers = 1,
     word_dropout_rate = 1 / 2, vocab_size = 4, max_sequence_length = 3,
     sos_idx = 1, eos_idx = 2, pad_idx = 0, unk_idx = 3,
     encoder_rnn = (\<lambda>row. [[sum_list (map sum_list row)]]),
     decoder_rnn = (\<lambda>row h. map (\<lambda>x. [sum_list x + sum_list h]) row),
     hidden2mean = (\<lambda>h. [sum_list h]),
     hidden2logv = (\<lambda>h. [0]),
     latent2hidden = (\<lambda>z. z),
     outputs2vocab = (\<lambda>out. replicate 4 (sum_list out)),
     prior = ''Standard'', alpha = 1, beta = 1, gamma = 1\<rparr>"

definition toy_batch :: batch where
  "toy_batch = \<lparr>drug_name = [''a''], drug_inputs = [[1, 3]], drug_targets = [[3, 2]],
     drug_len = [2], loc_ranking_indicator = [0], loc_ranking_len = [],
     loc_ranking_inputs = []\<rparr>"

definition toy_ranking_batch :: batch where
  "toy_ranking_batch = toy_batch\<lparr>loc_ranking_indicator := [1], loc_ranking_len := [[2, 1]],
     loc_ranking_inputs := [[[1, 3], [1, 0]]]\<rparr>"

text \<open>
  The same model with a vocabulary projection that keeps the recurrent output, so that
  rows decoded from different latent vectors differ.
\<close>

definition toy_decoder_model :: evae where
  "toy_decoder_model = toy_model\<lparr>outputs2vocab := (\<lambda>out. out @ [0, 0, 0])\<rparr>"

section \<open>Properties\<close>

subsection \<open>Word dropout and the decoder input\<close>

lemma word_dropout_nth:
  "b < length xs \<Longrightarrow> t < length (xs ! b) \<Longrightarrow>
   word_dropout m rand xs ! b ! t =
     (if (if protected_token m (xs ! b ! t) then 1 else rand b t) < word_dropout_rate m
      then unk_idx m else xs ! b ! t)"
  by (simp add: word_dropout_def Let_def)

lemma protected_sos_pad: "tok = sos_idx m \<or> tok = pad_idx m \<Longrightarrow> protected_token m tok"
  by (auto simp: protected_token_def)

text \<open>
  C1. With a word-dropout rate of 0 the decoder does not complete: the one-hot decoder
  input is never assigned, and reading it raises UnboundLocalError, for every batch.
\<close>

theorem decoder_without_dropout_raises:
  "word_dropout_rate m = 0 \<Longrightarrow>
   decoder m input_sequence sorted_lengths sorted_idx z rand = Inl UnboundLocalError"
  by (simp add: decoder_def)

theorem decoder_without_dropout_raises_witness:
  "word_dropout_rate (toy_model\<lparr>word_dropout_rate := 0\<rparr>) = 0
   \<and> decoder (toy_model\<lparr>word_dropout_rate := 0\<rparr>) [[1, 3, 2]] [3] [0] [[0]] (\<lambda>b t. 0)
       = Inl UnboundLocalError"
  using decoder_without_dropout_raises
    [of "toy_model\<lparr>word_dropout_rate := 0\<rparr>" "[[1, 3, 2]]" "[3]" "[0]" "[[0]]" "\<lambda>b t. 0"]
  by simp

text \<open>
  C4. The one-hot embedding tests the token against the literal 0, not against
  \<open>pad_idx\<close>: with \<open>pad_idx = 1\<close> the pad token 1 gets a one-hot vector and the non-pad
  token 0 gets the zero vector.
\<close>

theorem one_hot_embedding_ignores_pad_idx:
  "one_hot_embedding (toy_model\<lparr>vocab_size := 3, pad_idx := 1\<rparr>) [[1, 0]]
     = Inr [[[0, 1, 0], [0, 0, 0]]]"
  by (simp add: one_hot_embedding_def one_hot_vector_def toy_model_def eval_nat_numeral)

text \<open>
  C8. For a word-dropout rate in (0, 1], a position holding the start-of-sequence or
  the pad symbol keeps its token, and a position whose token changes holds another
  token before and the unknown symbol after.
\<close>

theorem word_dropout_keeps_sos_and_pad:
  assumes "0 < word_dropout_rate m" and "word_dropout_rate m \<le> 1"
    and "b < length input_sequence" and "t < length (input_sequence ! b)"
  shows "(input_sequence ! b ! t = sos_idx m \<or> input_sequence ! b ! t = pad_idx m
            \<longrightarrow> word_dropout m rand input_sequence ! b ! t = input_sequence ! b ! t)
         \<and> (word_dropout m rand input_sequence ! b ! t \<noteq> input_sequence ! b ! t
            \<longrightarrow> word_dropout m rand input_sequence ! b ! t = unk_idx m
                \<and> input_sequence ! b ! t \<noteq> sos_idx m \<and> input_sequence ! b ! t \<noteq> pad_idx m)"
proof -
  let ?tok = "input_sequence ! b ! t"
  have nth: "word_dropout m rand input_sequence ! b ! t =
     (if (if protected_token m ?tok then 1 else rand b t) < word_dropout_rate m
      then unk_idx m else ?tok)"
    using assms(3,4) by (rule word_dropout_nth)
  have keep: "word_dropout m rand input_sequence ! b ! t = ?tok"
    if "?tok = sos_idx m \<or> ?tok = pad_idx m"
  proof -
    have "protected_token m ?tok" using that by (rule protected_sos_pad)
    then show ?thesis using nth assms(2) by simp
  qed
  show ?thesis using keep nth by (auto split: if_splits)
qed

theorem word_dropout_keeps_sos_and_pad_witness:
  "0 < word_dropout_rate toy_model \<and> word_dropout_rate toy_model \<le> 1
   \<and> word_dropout toy_model (\<lambda>b t. 0) [[1, 2, 0]] = [[1, 3, 0]]"
proof -
  have "word_dropout toy_model (\<lambda>b t. 0) [[1, 2, 0]] ! 0 ! 0 = [[1, 2, 0]] ! 0 ! 0"
    using word_dropout_keeps_sos_and_pad [of toy_model 0 "[[1, 2, 0]]" 0 "\<lambda>b t. 0"]
    by (simp add: toy_model_def)
  then show ?thesis
    by (simp add: word_dropout_def protected_token_def toy_model_def upt_rec)
qed

subsection \<open>Gaussian log-densities and the conditional KL\<close>

lemma traverse_Inr:
  "(\<And>x. x \<in> set xs \<Longrightarrow> f x = Inr (g x)) \<Longrightarrow> traverse f xs = Inr (map g xs)"
  by (induction xs) auto

lemma sum_list_upt: "sum_list (map f [0..<n]) = (\<Sum>i<n. f i)"
  by (simp add: interv_sum_list_conv_sum_set_nat atLeast0LessThan)

lemma sum_list_map2_nth:
  "length xs = n \<Longrightarrow> length ys = n \<Longrightarrow> sum_list (map2 f xs ys) = (\<Sum>i<n. f (xs ! i) (ys ! i))"
  by (simp add: sum_list_sum_nth atLeast0LessThan)

lemma eye_nth: "i < n \<Longrightarrow> j < n \<Longrightarrow> eye n ! i ! j = (if i = j then 1 else 0)"
  by (simp add: eye_def)

lemma length_eye: "length (eye n) = n"
  by (simp add: eye_def)

lemma covariance_diagonal:
  "length lv = n \<Longrightarrow> i < n \<Longrightarrow> covariance lv (eye n) ! i ! i = exp (lv ! i)"
  by (simp add: covariance_def eye_def)

lemma mvn_log_prob_diagonal:
  assumes "length mu = n" and "length val = n" and "length lv = n"
  shows "mvn_log_prob mu (covariance lv (eye n)) val = gaussian_log_density val mu lv"
proof -
  have var: "map (\<lambda>i. covariance lv (eye n) ! i ! i) [0..<n] = map exp lv"
    using assms(3) by (auto intro!: nth_equalityI simp: covariance_diagonal)
  have M: "sum_list (map2 (\<lambda>d v. d\<^sup>2 / v) (map2 (\<lambda>v l. v - l) val mu) (map exp lv))
        = (\<Sum>i<n. (val ! i - mu ! i)\<^sup>2 / exp (lv ! i))"
    using assms by (simp add: sum_list_map2_nth)
  have H: "sum_list (map (\<lambda>v. ln (sqrt v)) (map exp lv)) = (\<Sum>i<n. lv ! i / 2)"
    using assms(3) by (simp add: sum_list_sum_nth atLeast0LessThan ln_sqrt)
  have "mvn_log_prob mu (covariance lv (eye n)) val
      = - (1/2) * (real n * ln (2 * pi) + (\<Sum>i<n. (val ! i - mu ! i)\<^sup>2 / exp (lv ! i)))
        - (\<Sum>i<n. lv ! i / 2)"
    unfolding mvn_log_prob_def Let_def assms(1) var M H ..
  also have "\<dots> = (\<Sum>i<n. - (1/2) * (ln (2 * pi) + lv ! i + (val ! i - mu ! i)\<^sup>2 / exp (lv ! i)))"
    by (simp add: sum.distrib sum_subtractf sum_distrib_left sum_negf algebra_simps
        sum_divide_distrib)
  finally show ?thesis
    by (simp add: gaussian_log_density_def assms(1))
qed

lemma eye_is_unit_covariance: "eye n = covariance (replicate n 0) (eye n)"
  by (auto intro!: nth_equalityI simp: covariance_def eye_def)

lemma mvn_log_prob_standard:
  assumes "length val = n"
  shows "mvn_log_prob (replicate n 0) (eye n) val = gaussian_log_density val (replicate n 0) (replicate n 0)"
proof -
  have "mvn_log_prob (replicate n 0) (covariance (replicate n 0) (eye n)) val
      = gaussian_log_density val (replicate n 0) (replicate n 0)"
    by (rule mvn_log_prob_diagonal) (simp_all add: assms)
  then show ?thesis using eye_is_unit_covariance [of n] by simp
qed



lemma kl_loss_rows:
  assumes std: "prior m = ''Standard''"
    and mean: "has_shape B n mean" and logv: "has_shape B n logv" and z: "has_shape B n z"
  shows "kl_loss m mean logv z =
     Inr (\<Sum>b<B. gaussian_log_density (z ! b) (mean ! b) (logv ! b)
                - gaussian_log_density (z ! b) (replicate n 0) (replicate n 0))"
proof -
  have len: "length mean = B" "length logv = B" "length z = B"
    using mean logv z by (simp_all add: has_shape_def)
  have row: "length (mean ! b) = n" "length (logv ! b) = n" "length (z ! b) = n" if "b < B" for b
    using that mean logv z by (simp_all add: has_shape_def list_all_length)
  have width: "row_width mean = n" if "0 < B"
    using that row(1) [of 0] len(1) by (cases mean) (simp_all add: row_width_def)
  have post: "mvn_log_prob (mean ! b) (map2 covariance logv (replicate B (eye (row_width mean))) ! b) (z ! b)
      = gaussian_log_density (z ! b) (mean ! b) (logv ! b)" if "b < B" for b
    using that len row [OF that] width by (simp add: mvn_log_prob_diagonal)
  have pri: "mvn_log_prob (replicate (row_width mean) 0) (replicate B (eye (row_width mean)) ! b) (z ! b)
      = gaussian_log_density (z ! b) (replicate n 0) (replicate n 0)" if "b < B" for b
    using that row [OF that] width by (simp add: mvn_log_prob_standard)
  let ?post = "map (\<lambda>b. mvn_log_prob (mean ! b)
      (map2 covariance logv (replicate B (eye (row_width mean))) ! b) (z ! b)) [0..<B]"
  let ?pri = "map (\<lambda>b. mvn_log_prob (replicate (row_width mean) 0)
      (replicate B (eye (row_width mean)) ! b) (z ! b)) [0..<B]"
  have "sum_list (map2 (\<lambda>q p. q - p) ?post ?pri) = (\<Sum>b<B. ?post ! b - ?pri ! b)"
    by (rule sum_list_map2_nth) simp_all
  also have "\<dots> = (\<Sum>b<B. gaussian_log_density (z ! b) (mean ! b) (logv ! b)
                - gaussian_log_density (z ! b) (replicate n 0) (replicate n 0))"
  proof (rule sum.cong)
    fix b assume "b \<in> {..<B}"
    then have "b < B" by simp
    then show "?post ! b - ?pri ! b = gaussian_log_density (z ! b) (mean ! b) (logv ! b)
                - gaussian_log_density (z ! b) (replicate n 0) (replicate n 0)"
      using post [of b] pri [of b] by simp
  qed simp
  finally show ?thesis
    unfolding kl_loss_def Let_def len using std by simp
qed





subsection \<open>The marginal posterior divergence\<close>

lemma filter_neq_upt: "b < n \<Longrightarrow> filter (\<lambda>r. r \<noteq> b) [0..<n] = [0..<b] @ [Suc b..<n]"
proof -
  assume "b < n"
  then have "[0..<n] = [0..<b] @ b # [Suc b..<n]"
    by (metis le_add1 less_imp_add_positive upt_add_eq_append upt_conv_Cons plus_nat.add_0)
  then have "filter (\<lambda>r. r \<noteq> b) [0..<n]
      = filter (\<lambda>r. r \<noteq> b) [0..<b] @ filter (\<lambda>r. r \<noteq> b) [Suc b..<n]"
    by simp
  moreover have "filter (\<lambda>r. r \<noteq> b) [0..<b] = [0..<b]"
    by (rule filter_True) simp
  moreover have "filter (\<lambda>r. r \<noteq> b) [Suc b..<n] = [Suc b..<n]"
    by (rule filter_True) simp
  ultimately show ?thesis by simp
qed

lemma remove_nth_conv:
  assumes "b < length xs"
  shows "take b xs @ drop (b + 1) xs = map (\<lambda>r. xs ! r) (filter (\<lambda>r. r \<noteq> b) [0..<length xs])"
proof -
  have "take b xs = map (\<lambda>r. xs ! r) [0..<b]"
    using assms by (auto intro!: nth_equalityI)
  moreover have "drop (b + 1) xs = map (\<lambda>r. xs ! r) [Suc b..<length xs]"
    using assms by (auto intro!: nth_equalityI)
  ultimately show ?thesis
    using assms by (simp add: filter_neq_upt)
qed

lemma length_filter_neq_upt: "b < n \<Longrightarrow> length (filter (\<lambda>r. r \<noteq> b) [0..<n]) = n - 1"
  by (simp add: filter_neq_upt)

lemma map_nth_index: "map (\<lambda>i. f (xs ! i)) [0..<length xs] = map f xs"
  by (auto intro!: nth_equalityI)

lemma has_shape_row: "has_shape B n xs \<Longrightarrow> b < B \<Longrightarrow> length (xs ! b) = n"
  by (simp add: has_shape_def list_all_length)

lemma has_shape_length: "has_shape B n xs \<Longrightarrow> length xs = B"
  by (simp add: has_shape_def)

lemma has_shape_width: "has_shape B n xs \<Longrightarrow> 0 < B \<Longrightarrow> row_width xs = n"
  by (cases xs) (auto simp: has_shape_def row_width_def)

lemma marginal_posterior_term_value:
  assumes B: "2 \<le> B" and ns: "num_samples \<noteq> 0" and b: "b < B"
    and z: "has_shape B n z" and mean: "has_shape B n mean" and logv: "has_shape B n logv"
  shows "marginal_posterior_term z mean logv num_samples b =
     Inr (aggregate_log_density z mean logv num_samples b,
          gaussian_log_density (z ! b) (replicate n 0) (replicate n 0))"
proof -
  let ?idx = "filter (\<lambda>r. r \<noteq> b) [0..<B]"
  have len: "length mean = B" "length logv = B" "length z = B"
    using z mean logv by (simp_all add: has_shape_length)
  have w: "row_width mean = n"
    using mean B by (simp add: has_shape_width)
  have lidx: "length ?idx = B - 1" using b by (rule length_filter_neq_upt)
  have idx_lt: "?idx ! r < B" if "r < B - 1" for r
    using nth_mem [of r ?idx] that lidx by auto
  have mu_r: "take b mean @ drop (b + 1) mean = map (\<lambda>r. mean ! r) ?idx"
    using remove_nth_conv [of b mean] b len by simp
  have lv_r: "take b logv @ drop (b + 1) logv = map (\<lambda>r. logv ! r) ?idx"
    using remove_nth_conv [of b logv] b len by simp
  have self: "mvn_log_prob (mean ! b) (covariance (logv ! b) (eye n)) (z ! b)
      = gaussian_log_density (z ! b) (mean ! b) (logv ! b)"
    using b z mean logv by (simp add: mvn_log_prob_diagonal has_shape_row)
  have cross_r: "mvn_log_prob (map (\<lambda>r. mean ! r) ?idx ! r)
        (map2 covariance (map (\<lambda>r. logv ! r) ?idx) (replicate (B - 1) (eye n)) ! r)
        (replicate (B - 1) (z ! b) ! r)
      = gaussian_log_density (z ! b) (mean ! (?idx ! r)) (logv ! (?idx ! r))"
    if "r < B - 1" for r
    using that lidx idx_lt [OF that] b z mean logv
    by (simp add: mvn_log_prob_diagonal has_shape_row)
  have cross: "mvn_batch_log_prob (map (\<lambda>r. mean ! r) ?idx)
        (map2 covariance (map (\<lambda>r. logv ! r) ?idx) (replicate (B - 1) (eye n)))
        (replicate (B - 1) (z ! b))
      = Inr (map (\<lambda>r. gaussian_log_density (z ! b) (mean ! r) (logv ! r)) ?idx)"
  proof -
    have ne: "?idx \<noteq> []" using lidx B by auto
    have "map (\<lambda>r. mvn_log_prob (map (\<lambda>r. mean ! r) ?idx ! r)
        (map2 covariance (map (\<lambda>r. logv ! r) ?idx) (replicate (B - 1) (eye n)) ! r)
        (replicate (B - 1) (z ! b) ! r)) [0..<B - 1]
      = map (\<lambda>r. gaussian_log_density (z ! b) (mean ! (?idx ! r)) (logv ! (?idx ! r))) [0..<length ?idx]"
      unfolding lidx
    proof (rule map_cong [OF refl])
      fix r assume "r \<in> set [0..<B - 1]"
      then have "r < B - 1" by simp
      then show "mvn_log_prob (map (\<lambda>r. mean ! r) ?idx ! r)
          (map2 covariance (map (\<lambda>r. logv ! r) ?idx) (replicate (B - 1) (eye n)) ! r)
          (replicate (B - 1) (z ! b) ! r)
        = gaussian_log_density (z ! b) (mean ! (?idx ! r)) (logv ! (?idx ! r))"
        by (rule cross_r)
    qed
    also have "\<dots> = map (\<lambda>r. gaussian_log_density (z ! b) (mean ! r) (logv ! r)) ?idx"
      by (rule map_nth_index)
    finally show ?thesis
      using ne by (simp add: mvn_batch_log_prob_def lidx)
  qed
  have prior: "mvn_log_prob (replicate n 0) (eye n) (z ! b)
      = gaussian_log_density (z ! b) (replicate n 0) (replicate n 0)"
    using b z by (simp add: mvn_log_prob_standard has_shape_row)
  have nz: "(int B - 1) * num_samples \<noteq> 0" using B ns by simp
  have weight: "real_of_int (num_samples - 1) / real_of_int ((int B - 1) * num_samples)
      = real_of_int (num_samples - 1) / (real (B - 1) * real_of_int num_samples)"
    using B by simp
  show ?thesis
    unfolding marginal_posterior_term_def Let_def len w mu_r lv_r self cross prior weight
      aggregate_log_density_def
    using nz by (simp add: comp_def)
qed

lemma fsum_Finite: "fsum (map (\<lambda>x. Finite (f x)) xs) = Finite (sum_list (map f xs))"
  by (induction xs) (simp_all add: fsum_def)

text \<open>
  C2. For a batch of \<open>B \<ge> 2\<close> examples and a number of samples other than 0 (where the
  offsets are not defined), \<open>marginal_posterior_divergence\<close> returns the sum over the
  examples \<open>b\<close> of \<open>log q(z_b) - log p(z_b)\<close>, with \<open>log q(z_b)\<close> the log-sum-exp of the
  in-example log-density offset by \<open>- log num_samples\<close> and the \<open>B - 1\<close> cross-example
  log-densities for \<open>r \<noteq> b\<close>, each offset by the logarithm of
  \<open>(num_samples - 1) / ((B - 1) * num_samples)\<close>, and \<open>log p(z_b)\<close> the standard-normal
  log-density.
\<close>

theorem marginal_posterior_divergence_value:
  assumes B: "2 \<le> B" and ns0: "num_samples \<noteq> 0"
    and z: "has_shape B n z" and mean: "has_shape B n mean" and logv: "has_shape B n logv"
  shows "marginal_posterior_divergence m z mean logv num_samples
           = Inr (minibatch_weighted_divergence z mean logv num_samples)"
proof -
  have len: "length mean = B" using mean by (rule has_shape_length)
  have terms: "traverse (marginal_posterior_term z mean logv num_samples) [0..<B]
      = Inr (map (\<lambda>b. (aggregate_log_density z mean logv num_samples b,
                        gaussian_log_density (z ! b) (replicate n 0) (replicate n 0))) [0..<B])"
    by (rule traverse_Inr) (simp add: marginal_posterior_term_value [OF B ns0 _ z mean logv])
  have spec: "minibatch_weighted_divergence z mean logv num_samples
      = fsum (map (\<lambda>b. fsub (aggregate_log_density z mean logv num_samples b)
                      (Finite (gaussian_log_density (z ! b) (replicate n 0) (replicate n 0))))
               [0..<B])"
    unfolding minibatch_weighted_divergence_def len
    by (rule arg_cong [where f = fsum], rule map_cong [OF refl])
       (simp add: has_shape_row [OF z])
  show ?thesis
    unfolding marginal_posterior_divergence_def Let_def len terms spec
    using B by (simp add: comp_def case_prod_unfold)
qed

theorem marginal_posterior_divergence_value_witness:
  "(2::nat) \<le> 2 \<and> (2::int) \<noteq> 0
   \<and> has_shape 2 1 [[0], [1::real]] \<and> has_shape 2 1 [[0], [0::real]]
   \<and> marginal_posterior_divergence toy_model [[0], [1]] [[0], [0]] [[0], [0]] 2
       = Inr (minibatch_weighted_divergence [[0], [1]] [[0], [0]] [[0], [0]] 2)"
proof -
  have s: "has_shape 2 1 [[0], [1::real]]" "has_shape 2 1 [[0], [0::real]]"
    by (simp_all add: has_shape_def)
  have "(2::nat) \<le> 2" and "(2::int) \<noteq> 0" by simp_all
  from marginal_posterior_divergence_value [OF this s(1) s(2) s(2), of toy_model] s
  show ?thesis by simp
qed

text \<open>With no samples the quotient of line 242 raises, for every batch of two or more.\<close>

lemma marginal_posterior_divergence_zero_samples:
  assumes "2 \<le> length mean"
  shows "marginal_posterior_divergence m z mean logv 0 = Inl ZeroDivisionError"
proof -
  have "drop 1 mean \<noteq> []" using assms by simp
  then have "marginal_posterior_term z mean logv 0 0 = Inl ZeroDivisionError"
    by (simp add: marginal_posterior_term_def mvn_batch_log_prob_def Let_def)
  moreover have "[0..<length mean] = 0 # [Suc 0..<length mean]"
    by (rule upt_conv_Cons) (use assms in auto)
  ultimately show ?thesis
    by (simp add: marginal_posterior_divergence_def)
qed

text \<open>
  C9. For a batch of exactly one example the estimator does not return, for every number
  of samples: the denominator \<open>(batch_size - 1) * num_samples\<close> of the cross-example weight
  is 0, and the distribution over the other examples, of which there are none, already
  raises RuntimeError at line 238, before the weight is computed. On the same batch the
  conditional KL returns \<open>log q(z | x) - log p(z)\<close>, so the two do not agree there.
\<close>

theorem marginal_posterior_divergence_single_example:
  assumes z: "has_shape 1 n z" and mean: "has_shape 1 n mean" and logv: "has_shape 1 n logv"
  shows "marginal_posterior_divergence m z mean logv num_samples = Inl RuntimeError
         \<and> (int (length mean) - 1) * num_samples = 0
         \<and> (prior m = ''Standard'' \<longrightarrow>
              kl_loss m mean logv z
                = Inr (gaussian_log_density (z ! 0) (mean ! 0) (logv ! 0)
                       - gaussian_log_density (z ! 0) (replicate n 0) (replicate n 0)))"
proof -
  have len: "length mean = 1" using mean by (rule has_shape_length)
  have "marginal_posterior_term z mean logv num_samples 0 = Inl RuntimeError"
    using len by (simp add: marginal_posterior_term_def mvn_batch_log_prob_def Let_def)
  then have raises: "marginal_posterior_divergence m z mean logv num_samples = Inl RuntimeError"
    using len by (simp add: marginal_posterior_divergence_def)
  have "kl_loss m mean logv z
      = Inr (gaussian_log_density (z ! 0) (mean ! 0) (logv ! 0)
             - gaussian_log_density (z ! 0) (replicate n 0) (replicate n 0))"
    if "prior m = ''Standard''"
    using kl_loss_rows [OF that mean logv z] by simp
  then show ?thesis using raises len by simp
qed

theorem marginal_posterior_divergence_single_example_witness:
  "has_shape 1 1 [[0::real]] \<and> has_shape 1 1 [[1::real]] \<and> prior toy_model = ''Standard''
   \<and> marginal_posterior_divergence toy_model [[0]] [[1]] [[0]] 5 = Inl RuntimeError
   \<and> kl_loss toy_model [[1]] [[0]] [[0]] = Inr (- (1 / 2))"
proof -
  have s: "has_shape 1 1 [[0::real]]" "has_shape 1 1 [[1::real]]"
    by (simp_all add: has_shape_def)
  have p: "prior toy_model = ''Standard''" by (simp add: toy_model_def)
  have "gaussian_log_density [0] [1] [0] - gaussian_log_density [0] (replicate 1 0) (replicate 1 0)
      = - (1 / 2)"
    by (simp add: gaussian_log_density_def add_divide_distrib)
  then show ?thesis
    using marginal_posterior_divergence_single_example [OF s(1) s(2) s(1), of toy_model 5] s p
    by simp
qed

subsection \<open>The MMD estimator\<close>

lemma map2_replicate_right:
  "length xs = k \<Longrightarrow> map2 f xs (replicate k c) = map (\<lambda>x. f x c) xs"
  by (auto intro!: nth_equalityI)

lemma map2_replicate_left:
  "length ys = k \<Longrightarrow> map2 f (replicate k c) ys = map (\<lambda>y. f c y) ys"
  by (auto intro!: nth_equalityI)

lemma compute_kernel_rows:
  "compute_kernel x y =
     map (\<lambda>xi. map (\<lambda>yj. fexp (fneg (fdiv (tensor_mean (map2 (\<lambda>u v. Finite ((u - v)\<^sup>2)) xi yj))
                                          (row_width x)))) y) x"
  by (auto intro!: nth_equalityI simp: compute_kernel_def Let_def)

lemma tensor_mean_Finite:
  "xs \<noteq> [] \<Longrightarrow> tensor_mean (map (\<lambda>x. Finite (f x)) xs)
     = Finite (sum_list (map f xs) / real (length xs))"
  by (simp add: tensor_mean_def fsum_Finite)

lemma kernel_entry:
  assumes "length a = n" and "length b = n" and "0 < n"
  shows "fexp (fneg (fdiv (tensor_mean (map2 (\<lambda>u v. Finite ((u - v)\<^sup>2)) a b)) n))
         = Finite (gaussian_kernel a b)"
proof -
  have ne: "zip a b \<noteq> []" using assms by (cases a; cases b) auto
  have "tensor_mean (map (\<lambda>p. Finite ((fst p - snd p)\<^sup>2)) (zip a b))
      = Finite (sum_list (map (\<lambda>p. (fst p - snd p)\<^sup>2) (zip a b)) / real (length (zip a b)))"
    using ne by (rule tensor_mean_Finite)
  moreover have "sum_list (map (\<lambda>p. (fst p - snd p)\<^sup>2) (zip a b)) = (\<Sum>k<n. (a ! k - b ! k)\<^sup>2)"
    using sum_list_map2_nth [of a n b "\<lambda>u v. (u - v)\<^sup>2"] assms
    by (simp add: case_prod_unfold)
  ultimately show ?thesis
    using assms by (simp add: case_prod_unfold gaussian_kernel_def)
qed

lemma compute_kernel_value:
  assumes x: "has_shape Bx n x" and y: "has_shape By n y" and n: "0 < n"
  shows "compute_kernel x y = map (\<lambda>xi. map (\<lambda>yj. Finite (gaussian_kernel xi yj)) y) x"
proof (cases "Bx = 0")
  case True
  then show ?thesis using x by (simp add: has_shape_def compute_kernel_rows)
next
  case False
  then have w: "row_width x = n" using x by (simp add: has_shape_width)
  have rx: "length xi = n" if "xi \<in> set x" for xi
    using that x by (simp add: has_shape_def list_all_iff)
  have ry: "length yj = n" if "yj \<in> set y" for yj
    using that y by (simp add: has_shape_def list_all_iff)
  show ?thesis
    unfolding compute_kernel_rows w
    by (intro map_cong refl) (simp add: kernel_entry rx ry n)
qed

lemma sum_list_concat_map:
  "sum_list (concat (map (\<lambda>xi. map (\<lambda>yj. (k xi yj :: real)) y) x))
     = (\<Sum>i<length x. \<Sum>j<length y. k (x ! i) (y ! j))"
proof -
  have "sum_list (concat (map (\<lambda>xi. map (\<lambda>yj. k xi yj) y) x))
      = sum_list (map (\<lambda>xi. sum_list (map (\<lambda>yj. k xi yj) y)) x)"
    by (induction x) simp_all
  also have "\<dots> = (\<Sum>i<length x. sum_list (map (\<lambda>yj. k (x ! i) yj) y))"
    by (simp add: sum_list_sum_nth atLeast0LessThan)
  also have "\<dots> = (\<Sum>i<length x. \<Sum>j<length y. k (x ! i) (y ! j))"
    by (simp add: sum_list_sum_nth atLeast0LessThan)
  finally show ?thesis .
qed

lemma length_concat_map: "length (concat (map (\<lambda>xi. map (f xi) y) x)) = length x * length y"
  by (induction x) simp_all

lemma kernel_matrix_mean:
  assumes "x \<noteq> []" and "y \<noteq> []"
  shows "tensor_mean (concat (map (\<lambda>xi. map (\<lambda>yj. Finite (gaussian_kernel xi yj)) y) x))
         = Finite (kernel_mean x y)"
proof -
  let ?k = "concat (map (\<lambda>xi. map (\<lambda>yj. gaussian_kernel xi yj) y) x)"
  have c: "concat (map (\<lambda>xi. map (\<lambda>yj. Finite (gaussian_kernel xi yj)) y) x)
      = map (\<lambda>v. Finite v) ?k"
    by (simp add: map_concat comp_def)
  have "length ?k = length x * length y" by (rule length_concat_map)
  then have ne: "?k \<noteq> []" using assms by (metis length_0_conv mult_is_0)
  show ?thesis
    unfolding c tensor_mean_Finite [OF ne] kernel_mean_def
    by (simp add: sum_list_concat_map length_concat_map)
qed

lemma tensor_mean_NaN: "tensor_mean (NaN # xs) = NaN"
  by (simp add: tensor_mean_def fsum_def)

lemma compute_kernel_no_dims:
  assumes x: "has_shape Bx 0 x" and y: "has_shape By 0 y" and "0 < Bx" and "0 < By"
  shows "tensor_mean (concat (compute_kernel x y)) = NaN"
proof -
  obtain x0 xs where xs: "x = x0 # xs" using x \<open>0 < Bx\<close> by (cases x) (auto simp: has_shape_def)
  obtain y0 ys where ys: "y = y0 # ys" using y \<open>0 < By\<close> by (cases y) (auto simp: has_shape_def)
  have "x0 = []" using x xs by (simp add: has_shape_def)
  then have "concat (compute_kernel x y)
      = NaN # (map (\<lambda>yj. fexp (fneg (fdiv (tensor_mean (map2 (\<lambda>u v. Finite ((u - v)\<^sup>2)) x0 yj))
                                          (row_width x)))) ys
               @ concat (map (\<lambda>xi. map (\<lambda>yj. fexp (fneg (fdiv (tensor_mean
                   (map2 (\<lambda>u v. Finite ((u - v)\<^sup>2)) xi yj)) (row_width x)))) y) xs))"
    unfolding compute_kernel_rows by (simp add: xs ys tensor_mean_def)
  then show ?thesis by (simp only: tensor_mean_NaN)
qed

text \<open>
  C7. For two sample sets of the same count \<open>B\<close> and dimensionality \<open>n\<close>,
  \<open>compute_mmd\<close> returns \<open>mean K_tt + mean K_zz - 2 * mean K_tz\<close> for the kernel
  \<open>exp (- mean_over_dims ((a - b)^2) / dim)\<close>, and \<open>mmd_loss\<close> returns it for the prior
  samples drawn and the latent codes; the means of empty tensors (no example, or no
  dimension) are NaN.
\<close>

theorem compute_mmd_value:
  assumes t: "has_shape B n t" and z: "has_shape B n z"
  shows "compute_mmd t z = (if B = 0 \<or> n = 0 then NaN else Finite (mmd_estimate t z))
         \<and> (latent_size m = n \<longrightarrow>
              mmd_loss m z noise =
                (if B = 0 \<or> n = 0 then NaN
                 else Finite (mmd_estimate (map (\<lambda>b. map (\<lambda>i. noise b i) [0..<n]) [0..<B]) z)))"
proof -
  have gen: "compute_mmd x y = (if B = 0 \<or> n = 0 then NaN else Finite (mmd_estimate x y))"
    if x: "has_shape B n x" and y: "has_shape B n y" for x y
  proof (cases "B = 0")
    case True
    then have "x = []" "y = []" using x y by (simp_all add: has_shape_def)
    then show ?thesis using True
      by (simp add: compute_mmd_def compute_kernel_def tensor_mean_def fsub_def)
  next
    case B: False
    show ?thesis
    proof (cases "n = 0")
      case True
      have "tensor_mean (concat (compute_kernel x x)) = NaN"
        using x B unfolding True by (intro compute_kernel_no_dims) simp_all
      then show ?thesis using True by (simp add: compute_mmd_def Let_def fsub_def)
    next
      case False
      then have n: "0 < n" by simp
      have km: "tensor_mean (concat (compute_kernel a b)) = Finite (kernel_mean a b)"
        if a: "has_shape B n a" and b: "has_shape B n b" for a b
      proof -
        have "a \<noteq> []" "b \<noteq> []" using a b B by (auto simp: has_shape_def)
        then show ?thesis
          unfolding compute_kernel_value [OF a b n] by (rule kernel_matrix_mean)
      qed
      have "tensor_mean (concat (compute_kernel x x)) = Finite (kernel_mean x x)"
        and "tensor_mean (concat (compute_kernel y y)) = Finite (kernel_mean y y)"
        and "tensor_mean (concat (compute_kernel x y)) = Finite (kernel_mean x y)"
        by (rule km [OF x x], rule km [OF y y], rule km [OF x y])
      then show ?thesis
        using B False by (simp add: compute_mmd_def Let_def fsub_def mmd_estimate_def)
    qed
  qed
  have noise: "has_shape B n (map (\<lambda>b. map (\<lambda>i. noise b i) [0..<n]) [0..<B])"
    by (simp add: has_shape_def list_all_iff)
  have len: "length z = B" using z by (rule has_shape_length)
  show ?thesis
    using gen [OF t z] gen [OF noise z] by (simp add: mmd_loss_def len)
qed

theorem compute_mmd_value_witness:
  "has_shape 1 1 [[0::real]] \<and> has_shape 1 1 [[1::real]]
   \<and> compute_mmd [[0]] [[1]] = Finite (mmd_estimate [[0]] [[1]])
   \<and> latent_size toy_model = 1
   \<and> mmd_loss toy_model [[1]] (\<lambda>b i. 0) = Finite (mmd_estimate [[0]] [[1]])"
proof -
  have s: "has_shape 1 1 [[0::real]]" "has_shape 1 1 [[1::real]]"
    by (simp_all add: has_shape_def)
  have l: "latent_size toy_model = 1" by (simp add: toy_model_def)
  from compute_mmd_value [OF s, of toy_model "\<lambda>b i. 0"] s l
  show ?thesis by simp
qed

subsection \<open>Zero loss weights\<close>

lemma one_hot_embedding_prior [simp]:
  "one_hot_embedding (m\<lparr>prior := p\<rparr>) xs = one_hot_embedding m xs"
  by (simp add: one_hot_embedding_def)

lemma encoder_prior [simp]: "encoder (m\<lparr>prior := p\<rparr>) xs ls = encoder m xs ls"
  by (simp add: encoder_def hidden_factor_def split: sum.splits)

lemma reparameterize_prior [simp]: "reparameterize (m\<lparr>prior := p\<rparr>) h eps = reparameterize m h eps"
  by (simp add: reparameterize_def)

lemma word_dropout_prior [simp]: "word_dropout (m\<lparr>prior := p\<rparr>) rand xs = word_dropout m rand xs"
  by (simp add: word_dropout_def protected_token_def Let_def)

lemma decoder_prior [simp]:
  "decoder (m\<lparr>prior := p\<rparr>) xs ls idx z rand = decoder m xs ls idx z rand"
  by (simp add: decoder_def Let_def split: sum.splits)

lemma marginal_posterior_divergence_prior [simp]:
  "marginal_posterior_divergence (m\<lparr>prior := p\<rparr>) z mean logv ns
     = marginal_posterior_divergence m z mean logv ns"
  by (simp add: marginal_posterior_divergence_def)

lemma mmd_loss_prior [simp]: "mmd_loss (m\<lparr>prior := p\<rparr>) z noise = mmd_loss m z noise"
  by (simp add: mmd_loss_def)

lemma vae_loss_without_kl:
  "beta m \<le> 0 \<Longrightarrow>
   vae_loss (m\<lparr>prior := p\<rparr>) batch num_samples eps rand noise tie
     = vae_loss m batch num_samples eps rand noise tie"
  by (simp add: vae_loss_def Let_def split: sum.splits prod.splits)

lemma vae_loss_without_marginal:
  "alpha m \<le> 0 \<Longrightarrow>
   vae_loss m batch num_samples' eps rand noise tie = vae_loss m batch num_samples eps rand noise tie"
  by (simp add: vae_loss_def Let_def split: sum.splits prod.splits)

lemma vae_loss_without_mmd:
  "gamma m \<le> 0 \<Longrightarrow>
   vae_loss m batch num_samples eps rand noise' tie = vae_loss m batch num_samples eps rand noise tie"
  by (simp add: vae_loss_def Let_def split: sum.splits prod.splits)

lemma vae_loss_terms:
  assumes "vae_loss m batch num_samples eps rand noise tie = Inr (recon, kl, mkl, mmd)"
  shows "(beta m \<le> 0 \<longrightarrow> kl = Finite 0) \<and> (alpha m \<le> 0 \<longrightarrow> mkl = Finite 0)
         \<and> (gamma m \<le> 0 \<longrightarrow> mmd = Finite 0)"
  using assms unfolding vae_loss_def Let_def
  by (auto split: sum.splits prod.splits if_splits)

text \<open>
  C10. Whenever \<open>vae_loss\<close> returns its four terms, a weight of zero makes the
  corresponding term the constant 0, and its estimator is not evaluated: with
  \<open>beta = 0\<close> the result does not depend on the prior (for any prior but the standard
  one \<open>kl_loss\<close> raises), with \<open>alpha = 0\<close> not on the number of samples (which only the
  marginal estimator reads), with \<open>gamma = 0\<close> not on the prior samples drawn for the MMD.
\<close>

theorem vae_loss_zero_weights:
  assumes "vae_loss m batch num_samples eps rand noise tie = Inr (recon, kl, mkl, mmd)"
  shows "(beta m = 0 \<longrightarrow> kl = Finite 0
            \<and> vae_loss (m\<lparr>prior := p\<rparr>) batch num_samples eps rand noise tie
                = Inr (recon, kl, mkl, mmd))
         \<and> (alpha m = 0 \<longrightarrow> mkl = Finite 0
            \<and> vae_loss m batch num_samples' eps rand noise tie = Inr (recon, kl, mkl, mmd))
         \<and> (gamma m = 0 \<longrightarrow> mmd = Finite 0
            \<and> vae_loss m batch num_samples eps rand noise' tie = Inr (recon, kl, mkl, mmd))"
  using assms vae_loss_terms [OF assms]
    vae_loss_without_kl [of m p batch num_samples eps rand noise tie]
    vae_loss_without_marginal [of m batch num_samples' eps rand noise tie num_samples]
    vae_loss_without_mmd [of m batch num_samples eps rand noise' tie noise]
  by simp

lemma vae_loss_toy_batch:
  "\<exists>recon. vae_loss (toy_model\<lparr>alpha := 0, beta := 0, gamma := 0\<rparr>) toy_batch 5
       (\<lambda>b i. 0) (\<lambda>b t. 1) (\<lambda>b i. 0) (\<lambda>i. i) = Inr (recon, Finite 0, Finite 0, Finite 0)"
  by (simp add: vae_loss_def toy_batch_def toy_model_def torch_sort_descending_def
      argsort_descending_def index_select_def encoder_def one_hot_embedding_def
      one_hot_vector_def pack_padded_sequence_def reparameterize_def decoder_def
      word_dropout_def protected_token_def pad_packed_sequence_def torch_sort_def
      argsort_def nll_loss_sum_def hidden_factor_def log_softmax_def Let_def eval_nat_numeral)

theorem vae_loss_zero_weights_witness:
  "beta (toy_model\<lparr>alpha := 0, beta := 0, gamma := 0\<rparr>) = 0
   \<and> alpha (toy_model\<lparr>alpha := 0, beta := 0, gamma := 0\<rparr>) = 0
   \<and> gamma (toy_model\<lparr>alpha := 0, beta := 0, gamma := 0\<rparr>) = 0
   \<and> (\<exists>recon.
         vae_loss (toy_model\<lparr>alpha := 0, beta := 0, gamma := 0\<rparr>) toy_batch 5
           (\<lambda>b i. 0) (\<lambda>b t. 1) (\<lambda>b i. 0) (\<lambda>i. i) = Inr (recon, Finite 0, Finite 0, Finite 0)
       \<and> vae_loss (toy_model\<lparr>alpha := 0, beta := 0, gamma := 0, prior := ''Laplace''\<rparr>) toy_batch 5
           (\<lambda>b i. 0) (\<lambda>b t. 1) (\<lambda>b i. 0) (\<lambda>i. i) = Inr (recon, Finite 0, Finite 0, Finite 0)
       \<and> vae_loss (toy_model\<lparr>alpha := 0, beta := 0, gamma := 0\<rparr>) toy_batch 0
           (\<lambda>b i. 0) (\<lambda>b t. 1) (\<lambda>b i. 0) (\<lambda>i. i) = Inr (recon, Finite 0, Finite 0, Finite 0)
       \<and> vae_loss (toy_model\<lparr>alpha := 0, beta := 0, gamma := 0\<rparr>) toy_batch 5
           (\<lambda>b i. 0) (\<lambda>b t. 1) (\<lambda>b i. 1) (\<lambda>i. i) = Inr (recon, Finite 0, Finite 0, Finite 0))"
proof -
  obtain recon where r:
    "vae_loss (toy_model\<lparr>alpha := 0, beta := 0, gamma := 0\<rparr>) toy_batch 5
       (\<lambda>b i. 0) (\<lambda>b t. 1) (\<lambda>b i. 0) (\<lambda>i. i) = Inr (recon, Finite 0, Finite 0, Finite 0)"
    using vae_loss_toy_batch by blast
  from vae_loss_zero_weights [OF r, of "''Laplace''" 0 "\<lambda>b i. 1"] r
  show ?thesis by auto
qed

subsection \<open>The un-sort inverts the sort\<close>

lemma permutation_length:
  assumes "distinct idx" and "set idx = {..<n}"
  shows "length idx = n"
  using assms distinct_card [of idx] by simp

lemma argsort_permutation:
  "distinct (argsort xs) \<and> set (argsort xs) = {..<length xs} \<and> length (argsort xs) = length xs"
  by (auto simp: argsort_def)

lemma argsort_descending_permutation:
  "distinct (argsort_descending tie xs) \<and> set (argsort_descending tie xs) = {..<length xs}
   \<and> length (argsort_descending tie xs) = length xs"
  by (auto simp: argsort_descending_def)

lemma argsort_inverse:
  assumes d: "distinct idx" and s: "set idx = {..<n}" and j: "j < n"
  shows "idx ! (argsort (map int idx) ! j) = j"
proof -
  have len: "length idx = n" using d s by (rule permutation_length)
  let ?f = "\<lambda>i. map int idx ! i"
  let ?r = "argsort (map int idx)"
  have r: "distinct ?r" "set ?r = {..<n}" "length ?r = n"
    using argsort_permutation [of "map int idx"] len by simp_all
  have f: "?f i = int (idx ! i)" if "i < n" for i using that len by simp
  have sorted: "sorted (map ?f ?r)"
    unfolding argsort_def by (rule sorted_sort_key)
  have inj: "inj_on ?f (set ?r)"
  proof (rule inj_onI)
    fix a b assume "a \<in> set ?r" "b \<in> set ?r" "?f a = ?f b"
    then have "a < n" "b < n" "idx ! a = idx ! b" using r(2) f by auto
    then show "a = b" using d len by (simp add: nth_eq_iff_index_eq)
  qed
  have dist: "distinct (map ?f ?r)" using r(1) inj by (simp add: distinct_map)
  have "set (map ?f ?r) = ?f ` {..<n}" using r(2) by simp
  also have "\<dots> = int ` set idx"
  proof -
    have "?f ` {..<n} = (\<lambda>i. int (idx ! i)) ` {..<n}" using f by (intro image_cong) auto
    also have "\<dots> = int ` (\<lambda>i. idx ! i) ` {..<n}" by (simp add: image_image)
    also have "(\<lambda>i. idx ! i) ` {..<n} = set idx"
      using len by (auto simp: set_conv_nth)
    finally show ?thesis .
  qed
  also have "\<dots> = set (map int [0..<n])" using s by (simp add: atLeast0LessThan)
  finally have set_eq: "set (map ?f ?r) = set (map int [0..<n])" .
  have "sorted (map int [0..<n])" by (simp add: sorted_iff_nth_mono)
  moreover have "distinct (map int [0..<n])" by (simp add: distinct_map)
  ultimately have "map ?f ?r = map int [0..<n]"
    using sorted dist set_eq by (intro sorted_distinct_set_unique)
  then have "map ?f ?r ! j = map int [0..<n] ! j" by simp
  then have "?f (?r ! j) = int j" using j r(3) by simp
  moreover have "?r ! j < n" using nth_mem [of j ?r] r j by auto
  ultimately show ?thesis using f by simp
qed

lemma argsort_inverse_left:
  assumes d: "distinct idx" and s: "set idx = {..<n}" and k: "k < n"
  shows "argsort (map int idx) ! (idx ! k) = k"
proof -
  have len: "length idx = n" using d s by (rule permutation_length)
  have ik: "idx ! k < n" using nth_mem [of k idx] len k s by auto
  let ?r = "argsort (map int idx)"
  have r: "set ?r = {..<n}" "length ?r = n"
    using argsort_permutation [of "map int idx"] len by simp_all
  have rk: "?r ! (idx ! k) < n" using nth_mem [of "idx ! k" ?r] r ik by auto
  have "idx ! (?r ! (idx ! k)) = idx ! k" using d s ik by (rule argsort_inverse)
  then show ?thesis using d len rk k by (simp add: nth_eq_iff_index_eq)
qed

lemma argsort_descending_sorts:
  "sorted (map (\<lambda>i. - (xs ! i)) (argsort_descending tie xs))"
  unfolding argsort_descending_def by (rule sorted_sort_key)

lemma argsort_descending_complete:
  assumes d: "distinct idx" and s: "set idx = {..<length xs}"
    and sorted: "sorted (map (\<lambda>i. - (xs ! i)) idx)"
  shows "\<exists>tie. argsort_descending tie xs = idx"
proof -
  let ?n = "length xs"
  let ?r = "argsort (map int idx)"
  define tie where "tie i = ?r ! i" for i
  have len: "length idx = ?n" using d s by (rule permutation_length)
  have r: "distinct ?r" "set ?r = {..<?n}" "length ?r = ?n"
    using argsort_permutation [of "map int idx"] len by simp_all
  have tie_idx: "map tie idx = [0..<?n]"
  proof (rule nth_equalityI)
    show "length (map tie idx) = length [0..<?n]" using len by simp
  next
    fix k assume "k < length (map tie idx)"
    then have k: "k < ?n" using len by simp
    have "?r ! (idx ! k) = k" using d s k by (rule argsort_inverse_left)
    then show "map tie idx ! k = [0..<?n] ! k" using k len by (simp add: tie_def)
  qed
  have inj: "inj_on tie {..<?n}"
  proof (rule inj_onI)
    fix a b assume "a \<in> {..<?n}" "b \<in> {..<?n}" "tie a = tie b"
    then show "a = b" using r(1,3) by (simp add: tie_def nth_eq_iff_index_eq)
  qed
  let ?l = "sort_key tie [0..<?n]"
  have "map tie ?l = map tie idx"
  proof (rule sorted_distinct_set_unique)
    show "sorted (map tie ?l)" by (rule sorted_sort_key)
    show "distinct (map tie ?l)" using inj by (simp add: distinct_map atLeast0LessThan)
    show "sorted (map tie idx)" unfolding tie_idx by simp
    show "distinct (map tie idx)" unfolding tie_idx by simp
    show "set (map tie ?l) = set (map tie idx)" using s by (simp add: atLeast0LessThan)
  qed
  moreover have "inj_on tie (set ?l \<union> set idx)" using inj s by (simp add: atLeast0LessThan)
  ultimately have "?l = idx" using inj_on_map_eq_map [of tie ?l idx] by blast
  moreover have "sort_key (\<lambda>i. - (xs ! i)) idx = idx"
    using sorted by (rule sort_key_id_if_sorted)
  ultimately have "argsort_descending tie xs = idx"
    by (simp add: argsort_descending_def)
  then show ?thesis by blast
qed

lemma fold_max_ge_init: "a \<le> fold max xs (a::nat)"
proof (induction xs arbitrary: a)
  case Nil
  then show ?case by simp
next
  case (Cons y ys)
  have "a \<le> max y a" by simp
  also have "\<dots> \<le> fold max ys (max y a)" by (rule Cons.IH)
  finally show ?case by simp
qed

lemma fold_max_ge: "x \<in> set xs \<Longrightarrow> x \<le> fold max xs (a::nat)"
proof (induction xs arbitrary: a)
  case Nil
  then show ?case by simp
next
  case (Cons y ys)
  show ?case
  proof (cases "x = y")
    case True
    have "max y a \<le> fold max ys (max y a)" by (rule fold_max_ge_init)
    then show ?thesis using True by simp
  next
    case False
    then show ?thesis using Cons by simp
  qed
qed


lemma index_select_Inr:
  "list_all (\<lambda>i. i < length xs) idx \<Longrightarrow> index_select xs idx = Inr (map (\<lambda>i. xs ! i) idx)"
  by (simp add: index_select_def)

lemma index_select_permutation:
  assumes "set idx = {..<length xs}"
  shows "index_select xs idx = Inr (map (\<lambda>i. xs ! i) idx)"
  using assms by (simp add: index_select_def list_all_iff)

lemma traverse_length: "traverse f xs = Inr ys \<Longrightarrow> length ys = length xs"
  by (induction xs arbitrary: ys) (auto split: sum.splits)

lemma traverse_nth:
  "traverse f xs = Inr ys \<Longrightarrow> i < length xs \<Longrightarrow> f (xs ! i) = Inr (ys ! i)"
proof (induction xs arbitrary: ys i)
  case Nil
  then show ?case by simp
next
  case (Cons x xs)
  then show ?case by (cases i) (auto split: sum.splits)
qed

lemma pack_padded_sequence_length:
  "pack_padded_sequence rows lengths = Inr packed \<Longrightarrow>
   length packed = length rows \<and> length lengths = length rows"
  by (auto simp: pack_padded_sequence_def split: if_splits)

lemma length_pad_packed_sequence [simp]:
  "length (pad_packed_sequence w outputs) = length outputs"
  by (simp add: pad_packed_sequence_def Let_def)

lemma snd_torch_sort [simp]: "snd (torch_sort xs) = argsort xs"
  by (simp add: torch_sort_def)

lemma word_dropout_single:
  "k < length X \<Longrightarrow> word_dropout m (\<lambda>b. rand k) [X ! k] = [word_dropout m rand X ! k]"
  by (simp add: word_dropout_def Let_def)

lemma pad_packed_sequence_nth:
  "k < length outputs \<Longrightarrow>
   pad_packed_sequence w outputs ! k
     = outputs ! k @ replicate (fold max (map length outputs) 0 - length (outputs ! k))
                       (replicate w 0)"
  by (simp add: pad_packed_sequence_def Let_def)

lemma decoder_rows:
  assumes d: "distinct idx" and s: "set idx = {..<length X}" and zl: "length Z = length X"
    and ok: "decoder m X lens idx Z rand = Inr out"
  shows "length out = length X
         \<and> (\<exists>s. \<forall>k<length X. \<exists>oh.
               one_hot_embedding m (word_dropout m (\<lambda>b. rand k) [X ! k]) = Inr [oh]
             \<and> length (decoder_rnn m (take (nat (lens ! k)) oh) (latent2hidden m (Z ! k))) \<le> s
             \<and> out ! (idx ! k)
                 = map (\<lambda>out. log_softmax (outputs2vocab m out))
                     (decoder_rnn m (take (nat (lens ! k)) oh) (latent2hidden m (Z ! k)))
                   @ replicate
                       (s - length (decoder_rnn m (take (nat (lens ! k)) oh)
                                      (latent2hidden m (Z ! k))))
                       (log_softmax (outputs2vocab m (replicate (hidden_size m) 0))))"
proof -
  let ?n = "length X"
  let ?G = "\<lambda>out. log_softmax (outputs2vocab m out)"
  let ?r = "argsort (map int idx)"
  from ok obtain oh packed where rate: "0 < word_dropout_rate m"
    and oh: "one_hot_embedding m (word_dropout m rand X) = Inr oh"
    and packed: "pack_padded_sequence oh lens = Inr packed"
    by (auto simp: decoder_def split: if_splits sum.splits)
  define outputs where "outputs = map2 (decoder_rnn m) packed (map (latent2hidden m) Z)"
  define P where "P = pad_packed_sequence (hidden_size m) outputs"
  define s where "s = fold max (map length outputs) 0"
  have lwd: "length (word_dropout m rand X) = ?n" by (simp add: word_dropout_def)
  have loh: "length oh = ?n"
    using oh traverse_length [of _ "word_dropout m rand X" oh] lwd
    by (simp add: one_hot_embedding_def)
  have lpk: "length packed = ?n" "length lens = ?n"
    using pack_padded_sequence_length [OF packed] loh by simp_all
  have lout: "length outputs = ?n" using lpk zl by (simp add: outputs_def)
  have lenP: "length P = ?n" using lout by (simp add: P_def)
  have pk: "packed = map2 (\<lambda>l row. take (nat l) row) lens oh"
    using packed by (auto simp: pack_padded_sequence_def split: if_splits)
  have len: "length idx = ?n" using d s by (rule permutation_length)
  have r: "set ?r = {..<length P}" "length ?r = ?n"
    using argsort_permutation [of "map int idx"] len lenP by simp_all
  have sel: "index_select P ?r = Inr (map (\<lambda>i. P ! i) ?r)"
    using r(1) by (rule index_select_permutation)
  have out: "out = map (map ?G) (map (\<lambda>i. P ! i) ?r)"
    using ok rate sel
    by (simp add: decoder_def oh packed P_def outputs_def Let_def)
  have lo: "length out = ?n" using out r(2) by simp
  have row: "one_hot_embedding m (word_dropout m (\<lambda>b. rand k) [X ! k]) = Inr [oh ! k]
      \<and> length (decoder_rnn m (take (nat (lens ! k)) (oh ! k)) (latent2hidden m (Z ! k))) \<le> s
      \<and> out ! (idx ! k)
          = map ?G (decoder_rnn m (take (nat (lens ! k)) (oh ! k)) (latent2hidden m (Z ! k)))
            @ replicate
                (s - length (decoder_rnn m (take (nat (lens ! k)) (oh ! k))
                               (latent2hidden m (Z ! k))))
                (?G (replicate (hidden_size m) 0))"
    if k: "k < ?n" for k
  proof -
    let ?o = "decoder_rnn m (take (nat (lens ! k)) (oh ! k)) (latent2hidden m (Z ! k))"
    have "traverse (one_hot_vector (vocab_size m)) (word_dropout m rand X ! k) = Inr (oh ! k)"
      using oh k lwd by (simp add: one_hot_embedding_def traverse_nth)
    then have o1: "one_hot_embedding m (word_dropout m (\<lambda>b. rand k) [X ! k]) = Inr [oh ! k]"
      using k by (simp add: word_dropout_single one_hot_embedding_def)
    have ok': "outputs ! k = ?o"
      using k lpk loh zl by (simp add: outputs_def pk)
    have le: "length ?o \<le> s"
      unfolding s_def using fold_max_ge [of "length ?o" "map length outputs" 0] k lout ok'
      by (metis length_map nth_map nth_mem)
    have Pk: "P ! k = ?o @ replicate (s - length ?o) (replicate (hidden_size m) 0)"
      using pad_packed_sequence_nth [of k outputs "hidden_size m"] k lout ok'
      by (simp add: P_def s_def)
    have ik: "idx ! k < ?n" using nth_mem [of k idx] len k s by auto
    have "?r ! (idx ! k) = k" using d s k by (rule argsort_inverse_left)
    then have "out ! (idx ! k) = map ?G (P ! k)"
      using ik r(2) k lenP by (simp add: out)
    then have "out ! (idx ! k)
        = map ?G ?o @ replicate (s - length ?o) (?G (replicate (hidden_size m) 0))"
      by (simp add: Pk)
    then show ?thesis using o1 le by simp
  qed
  show ?thesis using lo row by blast
qed

lemma decoder_caller_rows:
  assumes d: "distinct idx" and s: "set idx = {..<length U}" and zl: "length Z = length U"
    and ok: "decoder m (map (\<lambda>i. U ! i) idx) (map (\<lambda>i. L ! i) idx) idx Z rand = Inr out"
  shows "length out = length U
         \<and> (\<exists>s. \<forall>j<length U. \<exists>k<length U. idx ! k = j \<and> (\<exists>oh.
               one_hot_embedding m (word_dropout m (\<lambda>b. rand k) [U ! j]) = Inr [oh]
             \<and> length (decoder_rnn m (take (nat (L ! j)) oh) (latent2hidden m (Z ! k))) \<le> s
             \<and> out ! j
                 = map (\<lambda>out. log_softmax (outputs2vocab m out))
                     (decoder_rnn m (take (nat (L ! j)) oh) (latent2hidden m (Z ! k)))
                   @ replicate
                       (s - length (decoder_rnn m (take (nat (L ! j)) oh)
                                      (latent2hidden m (Z ! k))))
                       (log_softmax (outputs2vocab m (replicate (hidden_size m) 0)))))"
proof -
  let ?n = "length U"
  let ?X = "map (\<lambda>i. U ! i) idx"
  let ?ls = "map (\<lambda>i. L ! i) idx"
  let ?r = "argsort (map int idx)"
  let ?G = "\<lambda>out. log_softmax (outputs2vocab m out)"
  have len: "length idx = ?n" using d s by (rule permutation_length)
  have lX: "length ?X = ?n" using len by simp
  have s': "set idx = {..<length ?X}" using s lX by simp
  have zl': "length Z = length ?X" using zl lX by simp
  from decoder_rows [OF d s' zl' ok] obtain s where lo: "length out = ?n"
    and rows: "\<forall>k<?n. \<exists>oh.
        one_hot_embedding m (word_dropout m (\<lambda>b. rand k) [?X ! k]) = Inr [oh]
      \<and> length (decoder_rnn m (take (nat (?ls ! k)) oh) (latent2hidden m (Z ! k))) \<le> s
      \<and> out ! (idx ! k)
          = map ?G (decoder_rnn m (take (nat (?ls ! k)) oh) (latent2hidden m (Z ! k)))
            @ replicate
                (s - length (decoder_rnn m (take (nat (?ls ! k)) oh) (latent2hidden m (Z ! k))))
                (?G (replicate (hidden_size m) 0))"
    unfolding lX by blast
  have r: "set ?r = {..<?n}" "length ?r = ?n"
    using argsort_permutation [of "map int idx"] len by simp_all
  have "\<exists>k<?n. idx ! k = j \<and> (\<exists>oh.
        one_hot_embedding m (word_dropout m (\<lambda>b. rand k) [U ! j]) = Inr [oh]
      \<and> length (decoder_rnn m (take (nat (L ! j)) oh) (latent2hidden m (Z ! k))) \<le> s
      \<and> out ! j
          = map ?G (decoder_rnn m (take (nat (L ! j)) oh) (latent2hidden m (Z ! k)))
            @ replicate
                (s - length (decoder_rnn m (take (nat (L ! j)) oh) (latent2hidden m (Z ! k))))
                (?G (replicate (hidden_size m) 0)))"
    if j: "j < ?n" for j
  proof -
    let ?k = "?r ! j"
    have rj: "?k < ?n" using nth_mem [of j ?r] r j by auto
    have inv: "idx ! ?k = j" using d s j by (rule argsort_inverse)
    have X: "?X ! ?k = U ! j" "?ls ! ?k = L ! j" using rj len inv by simp_all
    from rows rj obtain oh where
      "one_hot_embedding m (word_dropout m (\<lambda>b. rand ?k) [?X ! ?k]) = Inr [oh]"
      "length (decoder_rnn m (take (nat (?ls ! ?k)) oh) (latent2hidden m (Z ! ?k))) \<le> s"
      "out ! (idx ! ?k)
          = map ?G (decoder_rnn m (take (nat (?ls ! ?k)) oh) (latent2hidden m (Z ! ?k)))
            @ replicate
                (s - length (decoder_rnn m (take (nat (?ls ! ?k)) oh) (latent2hidden m (Z ! ?k))))
                (?G (replicate (hidden_size m) 0))"
      by blast
    then show ?thesis unfolding X inv using rj inv by blast
  qed
  then show ?thesis using lo by blast
qed

lemma encoder_rows:
  assumes "encoder m xs ls = Inr hidden"
  shows "length hidden = length xs \<and> length ls = length xs
         \<and> (\<forall>k<length xs. encoder m [xs ! k] [ls ! k] = Inr [hidden ! k])"
proof -
  let ?C = "\<lambda>row. if 1 < hidden_factor m then concat (encoder_rnn m row) else hd (encoder_rnn m row)"
  from assms obtain oh packed where oh: "one_hot_embedding m xs = Inr oh"
    and packed: "pack_padded_sequence oh ls = Inr packed"
    and hidden: "hidden = map ?C packed"
    by (auto simp: encoder_def split: sum.splits)
  have loh: "length oh = length xs"
    using oh traverse_length [of _ xs oh] by (simp add: one_hot_embedding_def)
  have lens: "length packed = length xs" "length ls = length xs"
    using pack_padded_sequence_length [OF packed] loh by simp_all
  have valid: "list_all (\<lambda>l. 0 < l) ls" "list_all2 (\<lambda>l row. l \<le> int (length row)) ls oh"
    and pk: "packed = map2 (\<lambda>l row. take (nat l) row) ls oh"
    using packed by (auto simp: pack_padded_sequence_def split: if_splits)
  have row: "encoder m [xs ! k] [ls ! k] = Inr [hidden ! k]" if k: "k < length xs" for k
  proof -
    have "traverse (one_hot_vector (vocab_size m)) (xs ! k) = Inr (oh ! k)"
      using oh k by (simp add: one_hot_embedding_def traverse_nth)
    then have o: "one_hot_embedding m [xs ! k] = Inr [oh ! k]"
      by (simp add: one_hot_embedding_def)
    have "0 < ls ! k" using valid(1) k lens(2) by (simp add: list_all_length)
    moreover have "ls ! k \<le> int (length (oh ! k))"
      using list_all2_nthD [OF valid(2), of k] k lens(2) by simp
    ultimately have p: "pack_padded_sequence [oh ! k] [ls ! k] = Inr [take (nat (ls ! k)) (oh ! k)]"
      by (simp add: pack_padded_sequence_def)
    have "hidden ! k = ?C (take (nat (ls ! k)) (oh ! k))"
      using k lens loh by (simp add: hidden pk)
    then show ?thesis by (simp add: encoder_def o p)
  qed
  show ?thesis using row lens hidden by simp
qed

lemma reparameterize_rows:
  "reparameterize m hidden eps =
     (map (hidden2mean m) hidden, map (hidden2logv m) hidden,
      map (\<lambda>b. map (\<lambda>i. hidden2mean m (hidden ! b) ! i
                        + eps b i * (map (\<lambda>l. exp (0.5 * l)) (hidden2logv m (hidden ! b)) ! i))
                 [0..<latent_size m]) [0..<length hidden])"
  by (simp add: reparameterize_def Let_def)

lemma map_nth_permuted:
  assumes "set r \<subseteq> {..<length xs}"
  shows "map (\<lambda>i. map f xs ! i) r = map f (map (\<lambda>i. xs ! i) r)"
  using assms by (auto simp: subset_iff)

lemma get_intermediates_rows:
  assumes "get_intermediates m batch eps tie = Inr (mean, logv, z)"
  shows "\<exists>hidden. length hidden = length (drug_len batch)
           \<and> (\<forall>j<length (drug_len batch).
                 encoder m [drug_inputs batch ! j] [drug_len batch ! j] = Inr [hidden ! j])
           \<and> (mean, logv, z) = reparameterize m hidden
                 (\<lambda>j. eps (argsort (map int (argsort_descending tie (drug_len batch))) ! j))"
proof -
  let ?ls = "drug_len batch"
  let ?n = "length ?ls"
  let ?idx = "argsort_descending tie ?ls"
  let ?r = "argsort (map int ?idx)"
  have idx: "distinct ?idx" "set ?idx = {..<?n}" "length ?idx = ?n"
    using argsort_descending_permutation [of tie ?ls] by simp_all
  have r: "set ?r = {..<?n}" "length ?r = ?n"
    using argsort_permutation [of "map int ?idx"] idx(3) by simp_all
  from assms obtain X hs where X: "index_select (drug_inputs batch) ?idx = Inr X"
    and hs: "encoder m X (map (\<lambda>i. ?ls ! i) ?idx) = Inr hs"
    and sel: "index_select (fst (reparameterize m hs eps)) ?r = Inr mean"
      "index_select (fst (snd (reparameterize m hs eps))) ?r = Inr logv"
      "index_select (snd (snd (reparameterize m hs eps))) ?r = Inr z"
    by (auto simp: get_intermediates_def torch_sort_descending_def Let_def
        split: sum.splits prod.splits)
  have Xeq: "X = map (\<lambda>i. drug_inputs batch ! i) ?idx"
    using X by (auto simp: index_select_def split: if_splits)
  have lX: "length X = ?n" using Xeq idx(3) by simp
  have lhs: "length hs = ?n" using encoder_rows [OF hs] lX by simp
  have rows: "encoder m [X ! k] [map (\<lambda>i. ?ls ! i) ?idx ! k] = Inr [hs ! k]" if "k < ?n" for k
  proof -
    have "\<forall>k<length X. encoder m [X ! k] [map (\<lambda>i. ?ls ! i) ?idx ! k] = Inr [hs ! k]"
      using encoder_rows [OF hs] by blast
    then show ?thesis using that lX by metis
  qed
  have rsub: "set ?r \<subseteq> {..<length hs}" using r(1) lhs by simp
  have rlt: "?r ! j < ?n" if "j < ?n" for j
    using nth_mem [of j ?r] r that by auto
  define hidden where "hidden = map (\<lambda>i. hs ! i) ?r"
  have lh: "length hidden = ?n" by (simp add: hidden_def r(2))
  have hj: "hidden ! j = hs ! (?r ! j)" if "j < ?n" for j
    using that by (simp add: hidden_def r(2))
  have enc: "encoder m [drug_inputs batch ! j] [?ls ! j] = Inr [hidden ! j]" if j: "j < ?n" for j
  proof -
    have inv: "?idx ! (?r ! j) = j" using idx(1,2) j by (rule argsort_inverse)
    have "X ! (?r ! j) = drug_inputs batch ! j"
      using rlt [OF j] idx(3) inv by (simp add: Xeq)
    moreover have "map (\<lambda>i. ?ls ! i) ?idx ! (?r ! j) = ?ls ! j"
      using rlt [OF j] idx(3) inv by simp
    ultimately show ?thesis using rows [OF rlt [OF j]] hj [OF j] by simp
  qed
  let ?row = "\<lambda>h e. map (\<lambda>i. hidden2mean m h ! i
                   + e i * (map (\<lambda>l. exp (0.5 * l)) (hidden2logv m h) ! i)) [0..<latent_size m]"
  have m_eq: "mean = map (hidden2mean m) hidden"
    using sel(1) rsub
    by (auto simp: reparameterize_rows index_select_def hidden_def subset_iff split: if_splits)
  have l_eq: "logv = map (hidden2logv m) hidden"
    using sel(2) rsub
    by (auto simp: reparameterize_rows index_select_def hidden_def subset_iff split: if_splits)
  have "z = map (\<lambda>i. map (\<lambda>b. ?row (hs ! b) (eps b)) [0..<length hs] ! i) ?r"
    using sel(3) by (auto simp: reparameterize_rows index_select_def split: if_splits)
  also have "\<dots> = map (\<lambda>i. ?row (hs ! i) (eps i)) ?r"
    using rsub by (intro map_cong refl) (auto simp: subset_iff)
  also have "\<dots> = map (\<lambda>j. ?row (hs ! (?r ! j)) (eps (?r ! j))) [0..<length ?r]"
    by (auto intro!: nth_equalityI)
  also have "\<dots> = map (\<lambda>j. ?row (hidden ! j) (eps (?r ! j))) [0..<length hidden]"
    unfolding lh r(2) by (intro map_cong refl) (simp add: hj)
  finally have z_eq: "z = map (\<lambda>j. ?row (hidden ! j) (eps (?r ! j))) [0..<length hidden]" .
  have "(mean, logv, z) = reparameterize m hidden (\<lambda>j. eps (?r ! j))"
    unfolding reparameterize_rows m_eq l_eq z_eq ..
  then show ?thesis using lh enc by blast
qed

lemma get_intermediates_caller_rows:
  assumes ok: "get_intermediates m batch eps tie = Inr (mean, logv, z)"
  shows "length mean = length (drug_len batch) \<and> length logv = length (drug_len batch)
         \<and> length z = length (drug_len batch)
         \<and> (\<forall>j<length (drug_len batch). \<exists>k<length (drug_len batch).
               argsort_descending tie (drug_len batch) ! k = j \<and> (\<exists>h.
                 encoder m [drug_inputs batch ! j] [drug_len batch ! j] = Inr [h]
               \<and> mean ! j = hidden2mean m h \<and> logv ! j = hidden2logv m h
               \<and> z ! j = map (\<lambda>i. hidden2mean m h ! i
                                   + eps k i * (map (\<lambda>l. exp (0.5 * l)) (hidden2logv m h) ! i))
                              [0..<latent_size m]))"
proof -
  let ?ls = "drug_len batch"
  let ?n = "length ?ls"
  let ?idx = "argsort_descending tie ?ls"
  let ?r = "argsort (map int ?idx)"
  have idx: "distinct ?idx" "set ?idx = {..<?n}" "length ?idx = ?n"
    using argsort_descending_permutation [of tie ?ls] by simp_all
  have r: "set ?r = {..<?n}" "length ?r = ?n"
    using argsort_permutation [of "map int ?idx"] idx(3) by simp_all
  from get_intermediates_rows [OF ok] obtain hidden where lh: "length hidden = ?n"
    and enc: "\<forall>j<?n. encoder m [drug_inputs batch ! j] [?ls ! j] = Inr [hidden ! j]"
    and rep: "(mean, logv, z) = reparameterize m hidden (\<lambda>j. eps (?r ! j))"
    by blast
  have m_eq: "mean = map (hidden2mean m) hidden" and l_eq: "logv = map (hidden2logv m) hidden"
    and z_eq: "z = map (\<lambda>b. map (\<lambda>i. hidden2mean m (hidden ! b) ! i
                        + eps (?r ! b) i * (map (\<lambda>l. exp (0.5 * l)) (hidden2logv m (hidden ! b)) ! i))
                 [0..<latent_size m]) [0..<length hidden]"
    using rep unfolding reparameterize_rows by simp_all
  have "\<exists>k<?n. ?idx ! k = j \<and> (\<exists>h.
          encoder m [drug_inputs batch ! j] [?ls ! j] = Inr [h]
        \<and> mean ! j = hidden2mean m h \<and> logv ! j = hidden2logv m h
        \<and> z ! j = map (\<lambda>i. hidden2mean m h ! i
                            + eps k i * (map (\<lambda>l. exp (0.5 * l)) (hidden2logv m h) ! i))
                       [0..<latent_size m])"
    if j: "j < ?n" for j
  proof -
    have rj: "?r ! j < ?n" using nth_mem [of j ?r] r j by auto
    have inv: "?idx ! (?r ! j) = j" using idx(1,2) j by (rule argsort_inverse)
    have "encoder m [drug_inputs batch ! j] [?ls ! j] = Inr [hidden ! j]" using enc j by simp
    moreover have "mean ! j = hidden2mean m (hidden ! j)" "logv ! j = hidden2logv m (hidden ! j)"
      using j lh by (simp_all add: m_eq l_eq)
    moreover have "z ! j = map (\<lambda>i. hidden2mean m (hidden ! j) ! i
          + eps (?r ! j) i * (map (\<lambda>l. exp (0.5 * l)) (hidden2logv m (hidden ! j)) ! i))
        [0..<latent_size m]"
      using j lh by (simp add: z_eq)
    ultimately show ?thesis using rj inv by blast
  qed
  then show ?thesis using lh by (simp add: m_eq l_eq z_eq)
qed


text \<open>
  C5. The rows of the decoder's output and of the diagnostic entry point's result are in
  the caller's order. The decoder is run as its callers run it, on the rows of \<open>inputs\<close>
  and \<open>lengths\<close> selected by a permutation \<open>sorted_idx\<close>. Row \<open>j\<close> of its output is
  then computed from row \<open>j\<close> of \<open>inputs\<close> and of \<open>lengths\<close>: it is the log-softmax of the
  vocabulary projection of the recurrent outputs on the one-hot rows of \<open>inputs ! j\<close>,
  started from the latent vector and drawn with the dropout noise of the position \<open>k\<close>
  that row \<open>j\<close> has in the sorted batch, and padded to the common length. The diagnostic
  entry point returns in row \<open>j\<close> the mean and the log-variance of the encoding of row
  \<open>j\<close> of the batch, and the sample drawn from them with the noise of the position of
  row \<open>j\<close> in the sorted batch, whichever order the sort leaves equal lengths in.
\<close>

theorem unsort_restores_input_order:
  assumes "distinct sorted_idx" and "set sorted_idx = {..<length inputs}"
    and "length z = length inputs"
  shows "(decoder m (map (\<lambda>i. inputs ! i) sorted_idx) (map (\<lambda>i. lengths ! i) sorted_idx)
            sorted_idx z rand = Inr out \<longrightarrow>
          length out = length inputs
          \<and> (\<exists>s. \<forall>j<length inputs. \<exists>k<length inputs. sorted_idx ! k = j \<and> (\<exists>oh.
                one_hot_embedding m (word_dropout m (\<lambda>b. rand k) [inputs ! j]) = Inr [oh]
              \<and> length (decoder_rnn m (take (nat (lengths ! j)) oh) (latent2hidden m (z ! k))) \<le> s
              \<and> out ! j
                  = map (\<lambda>out. log_softmax (outputs2vocab m out))
                      (decoder_rnn m (take (nat (lengths ! j)) oh) (latent2hidden m (z ! k)))
                    @ replicate
                        (s - length (decoder_rnn m (take (nat (lengths ! j)) oh)
                                       (latent2hidden m (z ! k))))
                        (log_softmax (outputs2vocab m (replicate (hidden_size m) 0))))))
         \<and> (get_intermediates m batch eps tie = Inr (mean, logv, zs) \<longrightarrow>
             length mean = length (drug_len batch) \<and> length logv = length (drug_len batch)
           \<and> length zs = length (drug_len batch)
           \<and> (\<forall>j<length (drug_len batch). \<exists>k<length (drug_len batch).
                 argsort_descending tie (drug_len batch) ! k = j \<and> (\<exists>h.
                   encoder m [drug_inputs batch ! j] [drug_len batch ! j] = Inr [h]
                 \<and> mean ! j = hidden2mean m h \<and> logv ! j = hidden2logv m h
                 \<and> zs ! j = map (\<lambda>i. hidden2mean m h ! i
                                      + eps k i * (map (\<lambda>l. exp (0.5 * l)) (hidden2logv m h) ! i))
                                 [0..<latent_size m])))"
  using decoder_caller_rows [OF assms] get_intermediates_caller_rows by blast

lemma log_softmax_toy_rows: "log_softmax [1, 0, 0, 0] \<noteq> log_softmax [2, 0, 0, 0]"
proof -
  have "exp (1::real) < exp 2" by simp
  then have "ln (exp (1::real) + 3) < ln (exp 2 + 3)"
    by (intro iffD2 [OF ln_less_cancel_iff]) (simp_all add: add_pos_pos)
  then show ?thesis by (simp add: log_softmax_def)
qed

lemma decoder_toy:
  "decoder toy_decoder_model [[1, 3, 2], [1, 2, 0]] [3, 2] [1, 0] [[0], [1]] (\<lambda>b t. 1)
     = Inr [[log_softmax [2, 0, 0, 0], log_softmax [2, 0, 0, 0], log_softmax [0, 0, 0, 0]],
            [log_softmax [1, 0, 0, 0], log_softmax [1, 0, 0, 0], log_softmax [1, 0, 0, 0]]]"
  by (simp add: toy_decoder_model_def toy_model_def decoder_def one_hot_embedding_def
      one_hot_vector_def word_dropout_def protected_token_def pack_padded_sequence_def
      pad_packed_sequence_def torch_sort_def argsort_def index_select_def Let_def
      eval_nat_numeral)


lemma get_intermediates_toy:
  "get_intermediates toy_decoder_model
     (toy_batch\<lparr>drug_inputs := [[1, 2, 0], [1, 3, 2]], drug_len := [2, 3]\<rparr>)
     (\<lambda>b i. 10 * real b) (\<lambda>i. i) = Inr ([[2], [3]], [[0], [0]], [[12], [3]])"
  by (simp add: toy_decoder_model_def toy_model_def toy_batch_def get_intermediates_def
      torch_sort_descending_def torch_sort_def
      argsort_descending_def argsort_def index_select_def encoder_def one_hot_embedding_def
      one_hot_vector_def pack_padded_sequence_def hidden_factor_def reparameterize_def
      Let_def eval_nat_numeral)

theorem unsort_restores_input_order_witness:
  "distinct [1, 0 :: nat] \<and> set [1, 0 :: nat] = {..<length [[1, 2, 0], [1, 3, 2 :: int]]}
   \<and> length [[0], [1 :: real]] = length [[1, 2, 0], [1, 3, 2 :: int]]
   \<and> decoder toy_decoder_model (map (\<lambda>i. [[1, 2, 0], [1, 3, 2]] ! i) [1, 0])
         (map (\<lambda>i. [2, 3] ! i) [1, 0]) [1, 0] [[0], [1]] (\<lambda>b t. 1)
       = Inr [[log_softmax [2, 0, 0, 0], log_softmax [2, 0, 0, 0], log_softmax [0, 0, 0, 0]],
              [log_softmax [1, 0, 0, 0], log_softmax [1, 0, 0, 0], log_softmax [1, 0, 0, 0]]]
   \<and> log_softmax [1, 0, 0, 0] \<noteq> log_softmax [2, 0, 0, 0]
   \<and> (\<exists>s oh0 oh1.
          one_hot_embedding toy_decoder_model
            (word_dropout toy_decoder_model (\<lambda>b t. 1) [[1, 2, 0]]) = Inr [oh0]
        \<and> [log_softmax [2, 0, 0, 0], log_softmax [2, 0, 0, 0], log_softmax [0, 0, 0, 0]]
            = map (\<lambda>out. log_softmax (outputs2vocab toy_decoder_model out))
                (decoder_rnn toy_decoder_model (take 2 oh0) (latent2hidden toy_decoder_model [1]))
              @ replicate
                  (s - length (decoder_rnn toy_decoder_model (take 2 oh0)
                                 (latent2hidden toy_decoder_model [1])))
                  (log_softmax (outputs2vocab toy_decoder_model
                                  (replicate (hidden_size toy_decoder_model) 0)))
        \<and> one_hot_embedding toy_decoder_model
            (word_dropout toy_decoder_model (\<lambda>b t. 1) [[1, 3, 2]]) = Inr [oh1]
        \<and> [log_softmax [1, 0, 0, 0], log_softmax [1, 0, 0, 0], log_softmax [1, 0, 0, 0]]
            = map (\<lambda>out. log_softmax (outputs2vocab toy_decoder_model out))
                (decoder_rnn toy_decoder_model (take 3 oh1) (latent2hidden toy_decoder_model [0]))
              @ replicate
                  (s - length (decoder_rnn toy_decoder_model (take 3 oh1)
                                 (latent2hidden toy_decoder_model [0])))
                  (log_softmax (outputs2vocab toy_decoder_model
                                  (replicate (hidden_size toy_decoder_model) 0))))
   \<and> get_intermediates toy_decoder_model
         (toy_batch\<lparr>drug_inputs := [[1, 2, 0], [1, 3, 2]], drug_len := [2, 3]\<rparr>)
         (\<lambda>b i. 10 * real b) (\<lambda>i. i)
       = Inr ([[2], [3]], [[0], [0]], [[12], [3]])
   \<and> argsort_descending (\<lambda>i. i) [2, 3] = [1, 0]
   \<and> (\<exists>h. encoder toy_decoder_model [[1, 2, 0]] [2] = Inr [h]
          \<and> hidden2mean toy_decoder_model h = [2] \<and> hidden2logv toy_decoder_model h = [0]
          \<and> [12] = map (\<lambda>i. hidden2mean toy_decoder_model h ! i
                          + 10 * real (1::nat)
                            * (map (\<lambda>l. exp (0.5 * l)) (hidden2logv toy_decoder_model h) ! i))
                      [0..<latent_size toy_decoder_model])
   \<and> (\<exists>h. encoder toy_decoder_model [[1, 3, 2]] [3] = Inr [h]
          \<and> hidden2mean toy_decoder_model h = [3] \<and> hidden2logv toy_decoder_model h = [0]
          \<and> [3] = map (\<lambda>i. hidden2mean toy_decoder_model h ! i
                          + 10 * real (0::nat)
                            * (map (\<lambda>l. exp (0.5 * l)) (hidden2logv toy_decoder_model h) ! i))
                      [0..<latent_size toy_decoder_model])"
proof -
  let ?inputs = "[[1, 2, 0], [1, 3, 2 :: int]]"
  let ?out = "[[log_softmax [2, 0, 0, 0], log_softmax [2, 0, 0, 0], log_softmax [0, 0, 0, 0]],
               [log_softmax [1, 0, 0, 0], log_softmax [1, 0, 0, 0], log_softmax [1, 0, 0, 0]]]"
  let ?batch = "toy_batch\<lparr>drug_inputs := ?inputs, drug_len := [2, 3]\<rparr>"
  let ?m = toy_decoder_model
  let ?G = "\<lambda>out. log_softmax (outputs2vocab ?m out)"
  let ?pad = "log_softmax (outputs2vocab ?m (replicate (hidden_size ?m) 0))"
  have p: "distinct [1, 0 :: nat]" "set [1, 0 :: nat] = {..<length ?inputs}"
    "length [[0], [1 :: real]] = length ?inputs"
    by (auto simp: lessThan_Suc)
  have dec: "decoder ?m (map (\<lambda>i. ?inputs ! i) [1, 0])
      (map (\<lambda>i. [2, 3] ! i) [1, 0]) [1, 0] [[0], [1]] (\<lambda>b t. 1) = Inr ?out"
    using decoder_toy by simp
  note t = unsort_restores_input_order [OF p,
      where m = ?m and lengths = "[2, 3]" and rand = "\<lambda>b t. 1" and out = ?out
        and batch = ?batch and eps = "\<lambda>b i. 10 * real b" and tie = "\<lambda>i. i"
        and mean = "[[2], [3]]" and logv = "[[0], [0]]" and zs = "[[12], [3]]"]
  have b: "drug_len ?batch = [2, 3]" "drug_inputs ?batch = ?inputs"
    by (simp_all add: toy_batch_def)
  have two: "length [2, 3 :: int] = 2" "length ?inputs = 2" by simp_all
  have k2: "k = 0 \<or> k = 1" if "k < 2" for k :: nat using that by auto
  from t dec obtain s where rows: "\<forall>j<2. \<exists>k<2. [1, 0] ! k = j \<and> (\<exists>oh.
            one_hot_embedding ?m (word_dropout ?m (\<lambda>b t. 1) [?inputs ! j]) = Inr [oh]
          \<and> ?out ! j
              = map ?G (decoder_rnn ?m (take (nat ([2, 3] ! j)) oh)
                          (latent2hidden ?m ([[0], [1]] ! k)))
                @ replicate
                    (s - length (decoder_rnn ?m (take (nat ([2, 3] ! j)) oh)
                                   (latent2hidden ?m ([[0], [1]] ! k))))
                    ?pad)"
    unfolding two by blast
  from rows [rule_format, of 0] obtain k0 oh0 where k0: "k0 < 2" "[1, 0 :: nat] ! k0 = 0"
    and r0: "one_hot_embedding ?m (word_dropout ?m (\<lambda>b t. 1) [?inputs ! 0]) = Inr [oh0]"
      "?out ! 0 = map ?G (decoder_rnn ?m (take (nat ([2, 3] ! 0)) oh0)
                          (latent2hidden ?m ([[0], [1]] ! k0)))
                @ replicate
                    (s - length (decoder_rnn ?m (take (nat ([2, 3] ! 0)) oh0)
                                   (latent2hidden ?m ([[0], [1]] ! k0))))
                    ?pad"
    by (elim meta_impE exE conjE) simp_all
  from rows [rule_format, of 1] obtain k1 oh1 where k1: "k1 < 2" "[1, 0 :: nat] ! k1 = 1"
    and r1: "one_hot_embedding ?m (word_dropout ?m (\<lambda>b t. 1) [?inputs ! 1]) = Inr [oh1]"
      "?out ! 1 = map ?G (decoder_rnn ?m (take (nat ([2, 3] ! 1)) oh1)
                          (latent2hidden ?m ([[0], [1]] ! k1)))
                @ replicate
                    (s - length (decoder_rnn ?m (take (nat ([2, 3] ! 1)) oh1)
                                   (latent2hidden ?m ([[0], [1]] ! k1))))
                    ?pad"
    by (elim meta_impE exE conjE) simp_all
  have k0': "k0 = 1" using k2 [OF k0(1)] k0(2) by auto
  have k1': "k1 = 0" using k2 [OF k1(1)] k1(2) by auto
  have A: "\<exists>s oh0 oh1.
          one_hot_embedding ?m (word_dropout ?m (\<lambda>b t. 1) [[1, 2, 0]]) = Inr [oh0]
        \<and> [log_softmax [2, 0, 0, 0], log_softmax [2, 0, 0, 0], log_softmax [0, 0, 0, 0]]
            = map ?G (decoder_rnn ?m (take 2 oh0) (latent2hidden ?m [1]))
              @ replicate (s - length (decoder_rnn ?m (take 2 oh0) (latent2hidden ?m [1]))) ?pad
        \<and> one_hot_embedding ?m (word_dropout ?m (\<lambda>b t. 1) [[1, 3, 2]]) = Inr [oh1]
        \<and> [log_softmax [1, 0, 0, 0], log_softmax [1, 0, 0, 0], log_softmax [1, 0, 0, 0]]
            = map ?G (decoder_rnn ?m (take 3 oh1) (latent2hidden ?m [0]))
              @ replicate (s - length (decoder_rnn ?m (take 3 oh1) (latent2hidden ?m [0]))) ?pad"
    using r0 r1 unfolding k0' k1' by (intro exI [of _ s] exI [of _ oh0] exI [of _ oh1]) simp
  have srt: "argsort_descending (\<lambda>i. i) [2, 3] = [1, 0]"
    by (simp add: argsort_descending_def eval_nat_numeral)
  from t get_intermediates_toy
  have gi: "\<forall>j<2. \<exists>k<2. [1, 0 :: nat] ! k = j \<and> (\<exists>h.
          encoder ?m [?inputs ! j] [[2, 3] ! j] = Inr [h]
        \<and> [[2], [3]] ! j = hidden2mean ?m h
        \<and> [[0], [0]] ! j = hidden2logv ?m h
        \<and> [[12], [3]] ! j
            = map (\<lambda>i. hidden2mean ?m h ! i
                       + 10 * real k * (map (\<lambda>l. exp (0.5 * l)) (hidden2logv ?m h) ! i))
                [0..<latent_size ?m])"
    unfolding b two srt by blast
  from gi [rule_format, of 0] obtain g0 h0 where g0: "g0 < 2" "[1, 0 :: nat] ! g0 = 0"
    and e0: "encoder ?m [?inputs ! 0] [[2, 3] ! 0] = Inr [h0]"
      "[[2], [3]] ! 0 = hidden2mean ?m h0" "[[0], [0]] ! 0 = hidden2logv ?m h0"
      "[[12], [3]] ! 0 = map (\<lambda>i. hidden2mean ?m h0 ! i
                       + 10 * real g0 * (map (\<lambda>l. exp (0.5 * l)) (hidden2logv ?m h0) ! i))
                [0..<latent_size ?m]"
    by (elim meta_impE exE conjE) simp_all
  from gi [rule_format, of 1] obtain g1 h1 where g1: "g1 < 2" "[1, 0 :: nat] ! g1 = 1"
    and e1: "encoder ?m [?inputs ! 1] [[2, 3] ! 1] = Inr [h1]"
      "[[2], [3]] ! 1 = hidden2mean ?m h1" "[[0], [0]] ! 1 = hidden2logv ?m h1"
      "[[12], [3]] ! 1 = map (\<lambda>i. hidden2mean ?m h1 ! i
                       + 10 * real g1 * (map (\<lambda>l. exp (0.5 * l)) (hidden2logv ?m h1) ! i))
                [0..<latent_size ?m]"
    by (elim meta_impE exE conjE) simp_all
  have g0': "g0 = 1" using k2 [OF g0(1)] g0(2) by auto
  have g1': "g1 = 0" using k2 [OF g1(1)] g1(2) by auto
  have B0: "\<exists>h. encoder ?m [[1, 2, 0]] [2] = Inr [h]
          \<and> hidden2mean ?m h = [2] \<and> hidden2logv ?m h = [0]
          \<and> [12] = map (\<lambda>i. hidden2mean ?m h ! i
                          + 10 * real (1::nat) * (map (\<lambda>l. exp (0.5 * l)) (hidden2logv ?m h) ! i))
                      [0..<latent_size ?m]"
    using e0 unfolding g0' by (intro exI [of _ h0]) simp
  have B1: "\<exists>h. encoder ?m [[1, 3, 2]] [3] = Inr [h]
          \<and> hidden2mean ?m h = [3] \<and> hidden2logv ?m h = [0]
          \<and> [3] = map (\<lambda>i. hidden2mean ?m h ! i
                          + 10 * real (0::nat) * (map (\<lambda>l. exp (0.5 * l)) (hidden2logv ?m h) ! i))
                      [0..<latent_size ?m]"
    using e1 unfolding g1' by (intro exI [of _ h1]) simp
  show ?thesis
    by (intro conjI) (rule p dec log_softmax_toy_rows A srt B0 B1 get_intermediates_toy)+
qed

subsection \<open>The ranking loss\<close>

lemma length_concat_uniform:
  "(\<And>r. r \<in> set xss \<Longrightarrow> length r = w) \<Longrightarrow> length (concat xss) = length xss * w"
  by (induction xss) simp_all

lemma nth_concat_uniform:
  "(\<And>r. r \<in> set xss \<Longrightarrow> length r = w) \<Longrightarrow> s < length xss \<Longrightarrow> k < w \<Longrightarrow>
   concat xss ! (s * w + k) = xss ! s ! k"
proof (induction xss arbitrary: s)
  case Nil
  then show ?case by simp
next
  case (Cons r xss)
  show ?case
  proof (cases s)
    case 0
    then show ?thesis using Cons.prems by (simp add: nth_append)
  next
    case (Suc s')
    have "concat xss ! (s' * w + k) = xss ! s' ! k"
      using Cons.prems Suc by (intro Cons.IH) simp_all
    then show ?thesis using Cons.prems Suc by (simp add: nth_append)
  qed
qed

lemma view_rows_nth:
  assumes "view_rows w xs = Inr rows" and "i < length xs div w" and "k < w"
  shows "rows ! i ! k = xs ! (i * w + k)"
proof -
  have w: "0 < w" "length xs mod w = 0"
    and rows: "rows = map (\<lambda>i. take w (drop (i * w) xs)) [0..<length xs div w]"
    using assms(1) by (auto simp: view_rows_def split: if_splits)
  have "i * w + k < length xs"
  proof -
    have "i * w + k < (i + 1) * w" using assms(3) by simp
    also have "\<dots> \<le> (length xs div w) * w" using assms(2) by (intro mult_le_mono1) simp
    also have "\<dots> \<le> length xs" by simp
    finally show ?thesis .
  qed
  then show ?thesis using assms(2,3) by (simp add: rows)
qed

lemma view_rows_length:
  assumes "view_rows w xs = Inr rows"
  shows "length rows = length xs div w \<and> 0 < w \<and> length xs = length rows * w
         \<and> (\<forall>i<length rows. length (rows ! i) = w)"
proof -
  have w: "0 < w" "length xs mod w = 0"
    and rows: "rows = map (\<lambda>i. take w (drop (i * w) xs)) [0..<length xs div w]"
    using assms(1) by (auto simp: view_rows_def split: if_splits)
  have l: "length rows = length xs div w" by (simp add: rows)
  have full: "(length xs div w) * w = length xs"
    using w(2) by (simp add: mod_0_imp_dvd)
  have "length (rows ! i) = w" if "i < length rows" for i
  proof -
    have "(i + 1) * w \<le> (length xs div w) * w" using that l by (intro mult_le_mono1) simp
    then have "i * w + w \<le> length xs" unfolding full by simp
    then show ?thesis using that l by (simp add: rows)
  qed
  moreover have "length xs = length rows * w" unfolding l full ..
  ultimately show ?thesis using l w(1) by blast
qed

lemma view_rows_concat:
  assumes u: "\<And>r. r \<in> set xss \<Longrightarrow> length r = w" and ok: "view_rows w (concat xss) = Inr rows"
  shows "rows = xss"
proof -
  have v: "length rows = length (concat xss) div w" "0 < w"
    "\<forall>i<length rows. length (rows ! i) = w"
    using view_rows_length [OF ok] by blast+
  have lc: "length (concat xss) = length xss * w" using u by (rule length_concat_uniform)
  have l: "length rows = length xss" using v(1,2) lc by simp
  show ?thesis
  proof (rule nth_equalityI [OF l])
    fix i assume i: "i < length rows"
    then have i': "i < length xss" using l by simp
    have lr: "length (rows ! i) = w" using v(3) i by simp
    have lx: "length (xss ! i) = w" using u i' by simp
    show "rows ! i = xss ! i"
    proof (rule nth_equalityI)
      show "length (rows ! i) = length (xss ! i)" using lr lx by simp
    next
      fix k assume "k < length (rows ! i)"
      then have k: "k < w" using lr by simp
      have "rows ! i ! k = concat xss ! (i * w + k)"
        using view_rows_nth [OF ok, of i k] i v(1) k by simp
      also have "\<dots> = xss ! i ! k" using u i' k by (rule nth_concat_uniform)
      finally show "rows ! i ! k = xss ! i ! k" .
    qed
  qed
qed

lemma local_ranking_objective_sum:
  assumes "has_shape n k dm"
  shows "local_ranking_objective dm n
         = (\<Sum>s<n. dm ! s ! 0 + ln (\<Sum>c<k. exp (- (dm ! s ! c)))) / real n"
proof -
  have len: "length dm = n" using assms by (rule has_shape_length)
  have "sum_list (map (\<lambda>d. d ! 0 + ln (sum_list (map (\<lambda>x. exp (- x)) d))) dm)
      = (\<Sum>s<n. dm ! s ! 0 + ln (sum_list (map (\<lambda>x. exp (- x)) (dm ! s))))"
    by (simp add: sum_list_sum_nth atLeast0LessThan len)
  also have "\<dots> = (\<Sum>s<n. dm ! s ! 0 + ln (\<Sum>c<k. exp (- (dm ! s ! c))))"
  proof (rule sum.cong [OF refl])
    fix s assume "s \<in> {..<n}"
    then have "length (dm ! s) = k" using assms by (simp add: has_shape_row)
    then show "dm ! s ! 0 + ln (sum_list (map (\<lambda>x. exp (- x)) (dm ! s)))
        = dm ! s ! 0 + ln (\<Sum>c<k. exp (- (dm ! s ! c)))"
      by (simp add: sum_list_sum_nth atLeast0LessThan)
  qed
  finally show ?thesis by (simp add: local_ranking_objective_def)
qed

lemma local_ranking_objective_closed_form:
  "local_ranking_objective [[0, 5, 5]] 1 = ln (1 + 2 * exp (- 5))"
  by (simp add: local_ranking_objective_def)

lemma ranking_loss_steps:
  assumes ok: "ranking_loss m batch eps1 eps2 tie1 tie2 = Inr loss" and ne: "selected_anchors batch \<noteq> []"
  shows "\<exists>A_in A_len A_sorted hA L_len L_in flat_in flat_sorted hL mean_local mean_drug mde dm.
      index_select (drug_inputs batch) (selected_anchors batch) = Inr A_in
    \<and> index_select (drug_len batch) (selected_anchors batch) = Inr A_len
    \<and> index_select A_in (argsort_descending tie1 A_len) = Inr A_sorted
    \<and> encoder m A_sorted (map (\<lambda>i. A_len ! i) (argsort_descending tie1 A_len)) = Inr hA
    \<and> index_select (loc_ranking_len batch) (selected_anchors batch) = Inr L_len
    \<and> index_select (loc_ranking_inputs batch) (selected_anchors batch) = Inr L_in
    \<and> view_rows (max_sequence_length m - 1) (concat (concat L_in)) = Inr flat_in
    \<and> index_select flat_in (argsort_descending tie2 (concat L_len)) = Inr flat_sorted
    \<and> encoder m flat_sorted (map (\<lambda>i. concat L_len ! i) (argsort_descending tie2 (concat L_len)))
        = Inr hL
    \<and> index_select (map (hidden2mean m) hL)
          (argsort (map int (argsort_descending tie2 (concat L_len)))) = Inr mean_local
    \<and> index_select (map (hidden2mean m) hA)
          (argsort (map int (argsort_descending tie1 A_len))) = Inr mean_drug
    \<and> view_rows (latent_size m)
          (concat (map (\<lambda>row. concat (replicate (row_width L_len) row)) mean_drug)) = Inr mde
    \<and> view_rows (row_width L_len) (map2 pairwise_distance mean_local mde) = Inr dm
    \<and> length (map2 pairwise_distance mean_local mde)
        = length (selected_anchors batch) * row_width L_len
    \<and> loss = local_ranking_objective dm (length (selected_anchors batch))"
  using ok ne
  by (simp add: ranking_loss_def selected_anchors_def Let_def torch_sort_descending_def
      reparameterize_rows split: if_splits sum.splits)

lemma index_select_eq:
  "index_select xs idx = Inr ys \<Longrightarrow> ys = map (\<lambda>i. xs ! i) idx"
  by (auto simp: index_select_def split: if_splits)

lemma index_select_members:
  "index_select xs idx = Inr ys \<Longrightarrow> y \<in> set ys \<Longrightarrow> y \<in> set xs"
  by (auto simp: index_select_def list_all_iff split: if_splits)

lemma encoder_sorted_restore:
  assumes d: "distinct idx" and s: "set idx = {..<length ls}"
    and enc: "encoder m (map (\<lambda>i. xs ! i) idx) (map (\<lambda>i. ls ! i) idx) = Inr hs"
    and j: "j < length ls"
  shows "encoder m [xs ! j] [ls ! j] = Inr [hs ! (argsort (map int idx) ! j)]
         \<and> argsort (map int idx) ! j < length hs"
proof -
  let ?n = "length ls"
  let ?r = "argsort (map int idx)"
  have len: "length idx = ?n" using d s by (rule permutation_length)
  have r: "set ?r = {..<?n}" "length ?r = ?n"
    using argsort_permutation [of "map int idx"] len by simp_all
  have rj: "?r ! j < ?n" using nth_mem [of j ?r] r j by auto
  have inv: "idx ! (?r ! j) = j" using d s j by (rule argsort_inverse)
  have rows: "\<forall>k<length (map (\<lambda>i. xs ! i) idx).
      encoder m [map (\<lambda>i. xs ! i) idx ! k] [map (\<lambda>i. ls ! i) idx ! k] = Inr [hs ! k]"
    and lhs: "length hs = length (map (\<lambda>i. xs ! i) idx)"
    using encoder_rows [OF enc] by blast+
  have "encoder m [map (\<lambda>i. xs ! i) idx ! (?r ! j)] [map (\<lambda>i. ls ! i) idx ! (?r ! j)]
      = Inr [hs ! (?r ! j)]"
    using rows rj len by simp
  moreover have "map (\<lambda>i. xs ! i) idx ! (?r ! j) = xs ! j"
    using rj len inv by simp
  moreover have "map (\<lambda>i. ls ! i) idx ! (?r ! j) = ls ! j"
    using rj len inv by simp
  ultimately show ?thesis using rj lhs len by simp
qed

lemma concat_replicate_rows:
  "concat (map (\<lambda>row. concat (replicate k row)) xs) = concat (concat (map (replicate k) xs))"
  by (induction xs) simp_all

text \<open>
  C6. When \<open>ranking_loss\<close> returns for a non-empty selection of anchors, each with
  \<open>1 + K\<close> candidates of \<open>max_sequence_length - 1\<close> tokens, the loss is the average over
  the selected anchors of the distance to candidate 0 plus the log-sum-exp of the negated
  distances to the \<open>1 + K\<close> candidates, where the distance of anchor \<open>s\<close> to its
  candidate \<open>k\<close> is \<open>pairwise_distance\<close> between the encoded mean of that candidate and
  the encoded mean of the anchor. For one anchor with distances 0, 5, 5 the loss is
  \<open>log (1 + 2 exp (-5))\<close>.
\<close>

theorem ranking_loss_value:
  assumes ok: "ranking_loss m batch eps1 eps2 tie1 tie2 = Inr loss"
    and ne: "selected_anchors batch \<noteq> []"
    and groups: "\<And>i. i \<in> set (selected_anchors batch) \<Longrightarrow>
        length (loc_ranking_len batch ! i) = K1
        \<and> length (loc_ranking_inputs batch ! i) = K1
        \<and> (\<forall>row\<in>set (loc_ranking_inputs batch ! i). length row = max_sequence_length m - 1)"
    and lm: "\<And>h. length (hidden2mean m h) = latent_size m"
  shows "(\<exists>dm. has_shape (length (selected_anchors batch)) K1 dm
          \<and> (\<forall>s<length (selected_anchors batch). \<forall>k<K1. \<exists>ha hc.
                encoder m [drug_inputs batch ! (selected_anchors batch ! s)]
                          [drug_len batch ! (selected_anchors batch ! s)] = Inr [ha]
              \<and> encoder m [loc_ranking_inputs batch ! (selected_anchors batch ! s) ! k]
                          [loc_ranking_len batch ! (selected_anchors batch ! s) ! k] = Inr [hc]
              \<and> dm ! s ! k = pairwise_distance (hidden2mean m hc) (hidden2mean m ha))
          \<and> loss = (\<Sum>s<length (selected_anchors batch).
                       dm ! s ! 0 + ln (\<Sum>c<K1. exp (- (dm ! s ! c))))
                    / real (length (selected_anchors batch)))
         \<and> local_ranking_objective [[0, 5, 5]] 1 = ln (1 + 2 * exp (- 5))"
proof -
  let ?sel = "selected_anchors batch"
  let ?n = "length ?sel"
  let ?hm = "hidden2mean m"
  from ranking_loss_steps [OF ok ne]
  obtain A_in A_len A_sorted hA L_len L_in flat_in flat_sorted hL mean_local mean_drug mde dm
    where A_in: "index_select (drug_inputs batch) ?sel = Inr A_in"
      and A_len: "index_select (drug_len batch) ?sel = Inr A_len"
      and A_sorted: "index_select A_in (argsort_descending tie1 A_len) = Inr A_sorted"
      and hA: "encoder m A_sorted (map (\<lambda>i. A_len ! i) (argsort_descending tie1 A_len)) = Inr hA"
      and L_len: "index_select (loc_ranking_len batch) ?sel = Inr L_len"
      and L_in: "index_select (loc_ranking_inputs batch) ?sel = Inr L_in"
      and flat_in: "view_rows (max_sequence_length m - 1) (concat (concat L_in)) = Inr flat_in"
      and flat_sorted: "index_select flat_in (argsort_descending tie2 (concat L_len)) = Inr flat_sorted"
      and hL: "encoder m flat_sorted
                 (map (\<lambda>i. concat L_len ! i) (argsort_descending tie2 (concat L_len))) = Inr hL"
      and mean_local: "index_select (map ?hm hL)
                 (argsort (map int (argsort_descending tie2 (concat L_len)))) = Inr mean_local"
      and mean_drug: "index_select (map ?hm hA)
                 (argsort (map int (argsort_descending tie1 A_len))) = Inr mean_drug"
      and mde: "view_rows (latent_size m)
                 (concat (map (\<lambda>row. concat (replicate (row_width L_len) row)) mean_drug)) = Inr mde"
      and dm: "view_rows (row_width L_len) (map2 pairwise_distance mean_local mde) = Inr dm"
      and loss: "loss = local_ranking_objective dm ?n"
    by blast
  \<comment> \<open>the selected anchors and their candidate groups\<close>
  have A_in_eq: "A_in = map (\<lambda>i. drug_inputs batch ! i) ?sel"
    and A_len_eq: "A_len = map (\<lambda>i. drug_len batch ! i) ?sel"
    and L_len_eq: "L_len = map (\<lambda>i. loc_ranking_len batch ! i) ?sel"
    and L_in_eq: "L_in = map (\<lambda>i. loc_ranking_inputs batch ! i) ?sel"
    using A_in A_len L_len L_in by (simp_all add: index_select_eq)
  have lA: "length A_len = ?n" by (simp add: A_len_eq)
  have uL_len: "length r = K1" if "r \<in> set L_len" for r
    using that groups by (auto simp: L_len_eq)
  have uL_in: "length g = K1" if "g \<in> set L_in" for g
    using that groups by (auto simp: L_in_eq)
  have uRows: "length row = max_sequence_length m - 1" if "row \<in> set (concat L_in)" for row
    using that groups by (auto simp: L_in_eq)
  have width: "row_width L_len = K1"
    using ne groups by (cases ?sel) (simp_all add: L_len_eq row_width_def)
  have lflat: "length (concat L_len) = ?n * K1"
    using length_concat_uniform [of L_len K1] uL_len by (simp add: L_len_eq)
  have flat_eq: "flat_in = concat L_in"
    using uRows flat_in by (rule view_rows_concat)
  have flat_len_nth: "concat L_len ! (s * K1 + k) = loc_ranking_len batch ! (?sel ! s) ! k"
    if "s < ?n" "k < K1" for s k
    using nth_concat_uniform [of L_len K1 s k] uL_len that by (simp add: L_len_eq)
  have flat_in_nth: "flat_in ! (s * K1 + k) = loc_ranking_inputs batch ! (?sel ! s) ! k"
    if "s < ?n" "k < K1" for s k
    using nth_concat_uniform [of L_in K1 s k] uL_in that by (simp add: flat_eq L_in_eq)
  have pos: "s * K1 + k < ?n * K1" if "s < ?n" "k < K1" for s k
  proof -
    have "s * K1 + k < (s + 1) * K1" using that(2) by simp
    also have "\<dots> \<le> ?n * K1" using that(1) by (intro mult_le_mono1) simp
    finally show ?thesis .
  qed
  \<comment> \<open>the anchors: sorted, encoded, restored\<close>
  have aperm: "distinct (argsort_descending tie1 A_len)" "set (argsort_descending tie1 A_len) = {..<length A_len}"
    using argsort_descending_permutation [of tie1 A_len] by simp_all
  have hA': "encoder m (map (\<lambda>i. A_in ! i) (argsort_descending tie1 A_len))
               (map (\<lambda>i. A_len ! i) (argsort_descending tie1 A_len)) = Inr hA"
    using hA index_select_eq [OF A_sorted] by simp
  have anchor: "encoder m [drug_inputs batch ! (?sel ! s)] [drug_len batch ! (?sel ! s)]
        = Inr [hA ! (argsort (map int (argsort_descending tie1 A_len)) ! s)]
      \<and> mean_drug ! s = ?hm (hA ! (argsort (map int (argsort_descending tie1 A_len)) ! s))"
    if s: "s < ?n" for s
  proof -
    let ?r = "argsort (map int (argsort_descending tie1 A_len))"
    have e: "encoder m [A_in ! s] [A_len ! s] = Inr [hA ! (?r ! s)]" "?r ! s < length hA"
      using encoder_sorted_restore [OF aperm hA', of s] s lA by simp_all
    have lr: "length ?r = ?n"
      using argsort_permutation [of "map int (argsort_descending tie1 A_len)"]
        argsort_descending_permutation [of tie1 A_len] lA by simp
    have "mean_drug ! s = map ?hm hA ! (?r ! s)"
      using index_select_eq [OF mean_drug] s lr by simp
    then show ?thesis using e s by (simp add: A_in_eq A_len_eq)
  qed
  have l_mean_drug: "length mean_drug = ?n"
    using index_select_eq [OF mean_drug]
      argsort_permutation [of "map int (argsort_descending tie1 A_len)"]
      argsort_descending_permutation [of tie1 A_len] lA by simp
  \<comment> \<open>the candidates: flattened, sorted, encoded, restored\<close>
  have lperm: "distinct (argsort_descending tie2 (concat L_len))"
    "set (argsort_descending tie2 (concat L_len)) = {..<length (concat L_len)}"
    using argsort_descending_permutation [of tie2 "concat L_len"] by simp_all
  have hL': "encoder m (map (\<lambda>i. flat_in ! i) (argsort_descending tie2 (concat L_len)))
               (map (\<lambda>i. concat L_len ! i) (argsort_descending tie2 (concat L_len))) = Inr hL"
    using hL index_select_eq [OF flat_sorted] by simp
  have l_mean_local: "length mean_local = ?n * K1"
    using index_select_eq [OF mean_local]
      argsort_permutation [of "map int (argsort_descending tie2 (concat L_len))"]
      argsort_descending_permutation [of tie2 "concat L_len"] lflat by simp
  have candidate: "encoder m [loc_ranking_inputs batch ! (?sel ! s) ! k]
                             [loc_ranking_len batch ! (?sel ! s) ! k]
        = Inr [hL ! (argsort (map int (argsort_descending tie2 (concat L_len))) ! (s * K1 + k))]
      \<and> mean_local ! (s * K1 + k)
          = ?hm (hL ! (argsort (map int (argsort_descending tie2 (concat L_len))) ! (s * K1 + k)))"
    if s: "s < ?n" and k: "k < K1" for s k
  proof -
    let ?r = "argsort (map int (argsort_descending tie2 (concat L_len)))"
    let ?j = "s * K1 + k"
    have j: "?j < length (concat L_len)" using pos [OF s k] lflat by simp
    have e: "encoder m [flat_in ! ?j] [concat L_len ! ?j] = Inr [hL ! (?r ! ?j)]"
      "?r ! ?j < length hL"
      using encoder_sorted_restore [OF lperm hL' j] by simp_all
    have lr: "length ?r = ?n * K1"
      using argsort_permutation [of "map int (argsort_descending tie2 (concat L_len))"]
        argsort_descending_permutation [of tie2 "concat L_len"] lflat by simp
    have "mean_local ! ?j = map ?hm hL ! (?r ! ?j)"
      using index_select_eq [OF mean_local] j lr lflat by simp
    then show ?thesis
      using e flat_in_nth [OF s k] flat_len_nth [OF s k] by simp
  qed
  \<comment> \<open>the anchor means, repeated once per candidate\<close>
  have mde_eq: "mde = concat (map (replicate K1) mean_drug)"
  proof -
    have u: "length row = latent_size m" if "row \<in> set (concat (map (replicate K1) mean_drug))" for row
      using that index_select_members [OF mean_drug] lm by auto
    have "view_rows (latent_size m) (concat (concat (map (replicate K1) mean_drug))) = Inr mde"
      using mde by (simp add: width concat_replicate_rows)
    with u show ?thesis by (rule view_rows_concat)
  qed
  have urep: "length r = K1" if "r \<in> set (map (replicate K1) mean_drug)" for r
    using that by auto
  have mde_nth: "mde ! (s * K1 + k) = mean_drug ! s" if "s < ?n" "k < K1" for s k
    using nth_concat_uniform [of "map (replicate K1) mean_drug" K1 s k, OF urep] that l_mean_drug
    by (simp add: mde_eq)
  have l_mde: "length mde = ?n * K1"
    using length_concat_uniform [of "map (replicate K1) mean_drug" K1, OF urep] l_mean_drug
    by (simp add: mde_eq)
  \<comment> \<open>the distances\<close>
  let ?flat = "map2 pairwise_distance mean_local mde"
  have l_flat: "length ?flat = ?n * K1" using l_mean_local l_mde by simp
  have dm': "view_rows K1 ?flat = Inr dm" using dm by (simp only: width)
  have v: "length dm = length ?flat div K1" "0 < K1" "\<forall>i<length dm. length (dm ! i) = K1"
    using view_rows_length [OF dm'] by blast+
  have l_dist: "length dm = ?n" using v(1,2) l_flat by simp
  have shape: "has_shape ?n K1 dm"
    using l_dist v(3) by (simp add: has_shape_def list_all_length)
  have dist_nth: "dm ! s ! k = pairwise_distance (mean_local ! (s * K1 + k)) (mean_drug ! s)"
    if s: "s < ?n" and k: "k < K1" for s k
  proof -
    have "dm ! s ! k = ?flat ! (s * K1 + k)"
      using view_rows_nth [OF dm', of s k] s k l_flat v(2) by simp
    then show ?thesis
      using pos [OF s k] l_mean_local l_mde mde_nth [OF s k] by simp
  qed
  have entries: "\<exists>ha hc.
        encoder m [drug_inputs batch ! (?sel ! s)] [drug_len batch ! (?sel ! s)] = Inr [ha]
      \<and> encoder m [loc_ranking_inputs batch ! (?sel ! s) ! k]
                  [loc_ranking_len batch ! (?sel ! s) ! k] = Inr [hc]
      \<and> dm ! s ! k = pairwise_distance (?hm hc) (?hm ha)"
    if s: "s < ?n" and k: "k < K1" for s k
    using anchor [OF s] candidate [OF s k] dist_nth [OF s k] by auto
  have "loss = (\<Sum>s<?n. dm ! s ! 0 + ln (\<Sum>c<K1. exp (- (dm ! s ! c)))) / real ?n"
    unfolding loss using shape by (rule local_ranking_objective_sum)
  then show ?thesis
    using shape entries local_ranking_objective_closed_form by blast
qed

lemma selected_anchors_toy: "selected_anchors toy_ranking_batch = [0]"
  by (simp add: selected_anchors_def toy_ranking_batch_def toy_batch_def)

lemma view_rows_pairs: "view_rows (Suc (Suc 0)) [a, b, c, d] = Inr [[a, b], [c, d]]"
proof -
  have "length [a, b, c, d] = 4" by simp
  moreover have "(4::nat) mod 2 = 0" "(4::nat) div 2 = 2" by simp_all
  ultimately show ?thesis
    unfolding view_rows_def numeral_2_eq_2 [symmetric]
    by (simp add: upt_rec)
qed

lemma view_rows_pair: "view_rows (Suc (Suc 0)) [a, b] = Inr [[a, b]]"
proof -
  have "length [a, b] = 2" by simp
  moreover have "(2::nat) mod 2 = 0" "(2::nat) div 2 = 1" by simp_all
  ultimately show ?thesis
    unfolding view_rows_def numeral_2_eq_2 [symmetric]
    by (simp add: upt_rec)
qed

lemma view_rows_singles: "view_rows (Suc 0) [a, b] = Inr [[a], [b]]"
  by (simp add: view_rows_def upt_rec)

lemma ranking_loss_toy:
  "\<exists>loss. ranking_loss toy_model toy_ranking_batch (\<lambda>b i. 0) (\<lambda>b i. 0) (\<lambda>i. i) (\<lambda>i. i) = Inr loss"
  by (simp add: ranking_loss_def toy_ranking_batch_def toy_batch_def toy_model_def
      torch_sort_descending_def argsort_descending_def argsort_def torch_sort_def
      index_select_def encoder_def one_hot_embedding_def one_hot_vector_def
      pack_padded_sequence_def hidden_factor_def reparameterize_def row_width_def
      view_rows_pairs view_rows_pair view_rows_singles Let_def eval_nat_numeral)

theorem ranking_loss_value_witness:
  "selected_anchors toy_ranking_batch \<noteq> []
   \<and> (\<forall>h. length (hidden2mean toy_model h) = latent_size toy_model)
   \<and> (\<exists>loss dm. ranking_loss toy_model toy_ranking_batch (\<lambda>b i. 0) (\<lambda>b i. 0) (\<lambda>i. i) (\<lambda>i. i) = Inr loss
         \<and> has_shape (length (selected_anchors toy_ranking_batch)) 2 dm
         \<and> loss = (\<Sum>s<length (selected_anchors toy_ranking_batch).
                      dm ! s ! 0 + ln (\<Sum>c<2. exp (- (dm ! s ! c))))
                   / real (length (selected_anchors toy_ranking_batch)))"
proof -
  obtain loss where ok:
    "ranking_loss toy_model toy_ranking_batch (\<lambda>b i. 0) (\<lambda>b i. 0) (\<lambda>i. i) (\<lambda>i. i) = Inr loss"
    using ranking_loss_toy by blast
  have ne: "selected_anchors toy_ranking_batch \<noteq> []"
    by (simp add: selected_anchors_toy)
  have groups: "length (loc_ranking_len toy_ranking_batch ! i) = 2
        \<and> length (loc_ranking_inputs toy_ranking_batch ! i) = 2
        \<and> (\<forall>row\<in>set (loc_ranking_inputs toy_ranking_batch ! i).
              length row = max_sequence_length toy_model - 1)"
    if "i \<in> set (selected_anchors toy_ranking_batch)" for i
  proof -
    have "i = 0" using that by (simp add: selected_anchors_toy)
    then show ?thesis by (simp add: toy_ranking_batch_def toy_batch_def toy_model_def)
  qed
  have lm: "length (hidden2mean toy_model h) = latent_size toy_model" for h
    by (simp add: toy_model_def)
  from ranking_loss_value [OF ok ne groups lm] ok ne lm
  show ?thesis by blast
qed

end
